theory Spec2Isabelle
  imports Main "HOL-Library.Char_ord" "HOL-Library.List_Lexorder" "HOL-Library.Product_Lexorder"
begin

section \<open>Values\<close>

text \<open>
  Request bodies, query results and stored documents are JavaScript values. An object is
  an association list in insertion order, read by its first entry for a key. A number is an
  integer; a string is a list of code units below 256. \<open>JDate\<close> is a \<open>Date\<close> (milliseconds)
  and \<open>JOid\<close> an \<open>ObjectId\<close> of the database driver.
\<close>

datatype json =
    JNull
  | JBool bool
  | JNum int
  | JStr string
  | JDate int
  | JOid nat
  | JArr "json list"
  | JObj "(string \<times> json) list"

text \<open>\<open>x.k\<close> for a value \<open>x\<close> that is not \<open>null\<close>: \<open>None\<close> is \<open>undefined\<close>.\<close>

fun field :: "json \<Rightarrow> string \<Rightarrow> json option" where
  "field (JObj kvs) k = map_of kvs k"
| "field _ k = None"

text \<open>\<open>x.k = v\<close> on an object: the entry is replaced in place, or appended.\<close>

fun put :: "string \<Rightarrow> json \<Rightarrow> (string \<times> json) list \<Rightarrow> (string \<times> json) list" where
  "put k v [] = [(k, v)]"
| "put k v ((k', v') # kvs) = (if k' = k then (k, v) # kvs else (k', v') # put k v kvs)"

fun assign :: "string \<Rightarrow> json \<Rightarrow> json \<Rightarrow> json" where
  "assign k v (JObj kvs) = JObj (put k v kvs)"
| "assign k v x = x"

text \<open>JavaScript truthiness, of a value and of a property that may be \<open>undefined\<close>.\<close>

fun truthy :: "json \<Rightarrow> bool" where
  "truthy JNull = False"
| "truthy (JBool b) = b"
| "truthy (JNum n) = (n \<noteq> 0)"
| "truthy (JStr s) = (s \<noteq> [])"
| "truthy _ = True"

fun truthy_opt :: "json option \<Rightarrow> bool" where
  "truthy_opt None = False"
| "truthy_opt (Some v) = truthy v"

text \<open>\<open>x.k || d\<close>.\<close>

definition or_default :: "json \<Rightarrow> string \<Rightarrow> json \<Rightarrow> json" where
  "or_default x k d = (case field x k of None \<Rightarrow> d | Some v \<Rightarrow> if truthy v then v else d)"

section \<open>The platform\<close>

datatype kind = Topics | Categories | Events | Notes

text \<open>
  The schema expressions of the validators, as data. What the validation library does with
  one of them on one field value is a parameter of the model (\<open>joi_rule\<close> below).
\<close>

datatype rule =
    String_plain
  | String_trim
  | String_allow_empty
  | String_uri
  | String_valid "string list"
  | Integer_min int
  | Integer_min_max int int
  | Date_rule
  | Boolean_rule
  | Object_any
  | Object_keys "(string \<times> bool \<times> rule) list"
  | Array_items rule

text \<open>
  A number as the handlers meet one: \<open>NaN\<close>, an integer that a double holds exactly, or
  an infinity (\<open>True\<close> for the negative one).
\<close>

datatype number = NaN | Num int | Infinity bool

text \<open>
  Everything the repository calls and does not define: the validation library's treatment
  of one field, the database's collection validators, its failures, its matching of a
  query value that is not a string, its regular expressions, the clock, the two
  identifier generators, the double nearest to an integer above \<open>2\<^sup>5\<^sup>3\<close> (\<open>None\<close> when
  it overflows to an infinity) and what a cursor does with a skip or a limit that is not
  finite. Theorems hold for every such platform.
\<close>

record env =
  joi_rule :: "rule \<Rightarrow> json \<Rightarrow> string + json"
  joi_parse :: "string \<Rightarrow> (string \<times> json) list option"
  accepts :: "kind \<Rightarrow> json \<Rightarrow> bool"
  outage :: "nat \<Rightarrow> string option"
  other_match :: "json \<Rightarrow> json option \<Rightarrow> bool"
  regex_valid :: "string \<Rightarrow> bool"
  regex_match :: "string \<Rightarrow> json \<Rightarrow> bool"
  render :: "json \<Rightarrow> string"
  time :: "nat \<Rightarrow> int"
  uuidv4 :: "nat \<Rightarrow> string"
  oid_text :: "nat \<Rightarrow> string"
  double_of :: "nat \<Rightarrow> int option"
  odd_page :: "number \<Rightarrow> number \<Rightarrow> json list \<Rightarrow> string + json list"

text \<open>
  The mutable state: the four collections and how many store operations, clock reads,
  UUIDs and ObjectIds have been consumed so far.
\<close>

record world =
  docs :: "kind \<Rightarrow> json list"
  ops :: nat
  clock :: nat
  uuids :: nat
  oids :: nat

text \<open>A computation that may throw an \<open>Error\<close> (its message on the left).\<close>

type_synonym 'a io = "world \<Rightarrow> (string + 'a) \<times> world"

definition ret :: "'a \<Rightarrow> 'a io" where
  "ret x w = (Inr x, w)"

definition throw :: "string \<Rightarrow> 'a io" where
  "throw m w = (Inl m, w)"

definition bind :: "'a io \<Rightarrow> ('a \<Rightarrow> 'b io) \<Rightarrow> 'b io" where
  "bind m f w = (case m w of (Inl e, w') \<Rightarrow> (Inl e, w') | (Inr x, w') \<Rightarrow> f x w')"

text \<open>\<open>new Date()\<close>, \<open>uuidv4()\<close> and \<open>new ObjectId()\<close>.\<close>

definition new_Date :: "env \<Rightarrow> json io" where
  "new_Date e w = (Inr (JDate (time e (clock w))), w\<lparr>clock := Suc (clock w)\<rparr>)"

definition new_uuid :: "env \<Rightarrow> json io" where
  "new_uuid e w = (Inr (JStr (uuidv4 e (uuids w))), w\<lparr>uuids := Suc (uuids w)\<rparr>)"

definition new_ObjectId :: "nat io" where
  "new_ObjectId w = (Inr (oids w), w\<lparr>oids := Suc (oids w)\<rparr>)"

text \<open>Template interpolation \<open>${x}\<close>.\<close>

definition to_text :: "env \<Rightarrow> json \<Rightarrow> string" where
  "to_text e x = (case x of JStr s \<Rightarrow> s | _ \<Rightarrow> render e x)"

section \<open>The document store\<close>

text \<open>
  An equality filter \<open>{ f: x }\<close> on the value stored under \<open>f\<close>: the database compares
  with the value, or with the elements of an array stored there. A filter value \<open>x\<close> that
  is neither a string nor a boolean is left to the platform.
\<close>

definition eq_match :: "json \<Rightarrow> json option \<Rightarrow> bool" where
  "eq_match x v =
     (case v of
        None \<Rightarrow> False
      | Some (JArr vs) \<Rightarrow> x \<in> set vs
      | Some y \<Rightarrow> y = x)"

definition id_matches :: "env \<Rightarrow> json \<Rightarrow> json \<Rightarrow> bool" where
  "id_matches e x d =
     (case x of
        JStr s \<Rightarrow> eq_match (JStr s) (field d ''id'')
      | _ \<Rightarrow> other_match e x (field d ''id''))"

text \<open>
  Every call that reaches the database counts as one operation, and the platform decides
  whether that operation fails.
\<close>

definition store_call :: "env \<Rightarrow> 'a io \<Rightarrow> 'a io" where
  "store_call e body w =
     (let w' = w\<lparr>ops := Suc (ops w)\<rparr>
      in case outage e (ops w) of Some m \<Rightarrow> (Inl m, w') | None \<Rightarrow> body w')"

definition findOne :: "env \<Rightarrow> kind \<Rightarrow> json \<Rightarrow> json option io" where
  "findOne e k x = store_call e (\<lambda>w. (Inr (find (id_matches e x) (docs w k)), w))"

text \<open>
  \<open>insertOne\<close> gives the document an \<open>_id\<close> when it has none (the driver writes it into
  the caller's object) and returns the inserted document. A document the collection's
  validator rejects makes the call throw.
\<close>

definition insertOne :: "env \<Rightarrow> kind \<Rightarrow> json \<Rightarrow> json io" where
  "insertOne e k d = store_call e
     (bind (case field d ''_id'' of
              None \<Rightarrow> bind new_ObjectId (\<lambda>n. ret (assign ''_id'' (JOid n) d))
            | Some _ \<Rightarrow> ret d)
        (\<lambda>d' w.
           if accepts e k d' then (Inr d', w\<lparr>docs := (docs w)(k := docs w k @ [d'])\<rparr>)
           else (Inl ''Document failed validation'', w)))"

fun replace_first :: "('a \<Rightarrow> bool) \<Rightarrow> 'a \<Rightarrow> 'a list \<Rightarrow> 'a list" where
  "replace_first P y [] = []"
| "replace_first P y (x # xs) = (if P x then y # xs else x # replace_first P y xs)"

fun remove_first :: "('a \<Rightarrow> bool) \<Rightarrow> 'a list \<Rightarrow> 'a list" where
  "remove_first P [] = []"
| "remove_first P (x # xs) = (if P x then xs else x # remove_first P xs)"

text \<open>\<open>{ $set: upd }\<close> on a document: every entry of \<open>upd\<close> is assigned.\<close>

definition set_fields :: "json \<Rightarrow> json \<Rightarrow> json" where
  "set_fields upd d = (case upd of JObj kvs \<Rightarrow> fold (\<lambda>(k, v). assign k v) kvs d | _ \<Rightarrow> d)"

text \<open>
  \<open>updateOne({ id }, { $set: upd })\<close> returns \<open>modifiedCount\<close>: 0 when no document matches
  or when the first matching document is left as it was.
\<close>

definition updateOne :: "env \<Rightarrow> kind \<Rightarrow> json \<Rightarrow> json \<Rightarrow> nat io" where
  "updateOne e k x upd = store_call e (\<lambda>w.
     case find (id_matches e x) (docs w k) of
       None \<Rightarrow> (Inr 0, w)
     | Some d \<Rightarrow>
         let d' = set_fields upd d
         in if d' = d then (Inr 0, w)
            else if accepts e k d'
            then (Inr 1, w\<lparr>docs := (docs w)(k := replace_first (id_matches e x) d' (docs w k))\<rparr>)
            else (Inl ''Document failed validation'', w))"

text \<open>\<open>deleteOne({ id })\<close> returns \<open>deletedCount\<close>.\<close>

definition deleteOne :: "env \<Rightarrow> kind \<Rightarrow> json \<Rightarrow> nat io" where
  "deleteOne e k x = store_call e (\<lambda>w.
     case find (id_matches e x) (docs w k) of
       None \<Rightarrow> (Inr 0, w)
     | Some d \<Rightarrow> (Inr 1, w\<lparr>docs := (docs w)(k := remove_first (id_matches e x) (docs w k))\<rparr>))"


subsection \<open>Cursors: sort, skip, limit\<close>

text \<open>
  The sort key of a field: the database orders values by type first (a missing field as
  \<open>null\<close>), then numbers and dates by value and strings by their code units. Objects and
  arrays are ordered by their type only.
\<close>

fun bson_key :: "json option \<Rightarrow> nat \<times> int \<times> string" where
  "bson_key None = (0, 0, [])"
| "bson_key (Some JNull) = (0, 0, [])"
| "bson_key (Some (JNum n)) = (1, n, [])"
| "bson_key (Some (JStr s)) = (2, 0, s)"
| "bson_key (Some (JObj kvs)) = (3, 0, [])"
| "bson_key (Some (JArr vs)) = (4, 0, [])"
| "bson_key (Some (JOid n)) = (6, int n, [])"
| "bson_key (Some (JBool b)) = (7, if b then 1 else 0, [])"
| "bson_key (Some (JDate t)) = (8, t, [])"

text \<open>
  A sort specification \<open>{ f1: \<plusminus>1, f2: \<plusminus>1, ... }\<close> is a list of fields, each with a flag
  for descending order. \<open>doc_le s a b\<close>: document \<open>a\<close> may stand before \<open>b\<close>.
\<close>

fun doc_le :: "(string \<times> bool) list \<Rightarrow> json \<Rightarrow> json \<Rightarrow> bool" where
  "doc_le [] a b = True"
| "doc_le ((f, descending) # fs) a b =
     (let ka = bson_key (field a f); kb = bson_key (field b f)
      in if ka = kb then doc_le fs a b
         else if descending then kb < ka else ka < kb)"

fun insert_doc :: "(string \<times> bool) list \<Rightarrow> json \<Rightarrow> json list \<Rightarrow> json list" where
  "insert_doc s x [] = [x]"
| "insert_doc s x (y # ys) = (if doc_le s x y then x # y # ys else y # insert_doc s x ys)"

definition sort_docs :: "(string \<times> bool) list \<Rightarrow> json list \<Rightarrow> json list" where
  "sort_docs s xs = foldr (insert_doc s) xs []"

text \<open>
  \<open>.skip(skip).limit(limit)\<close>: the server refuses a negative skip; a limit of 0 is no
  limit and a negative limit counts as its absolute value. What happens with a skip or a
  limit that is not finite is the platform's.
\<close>

definition page :: "env \<Rightarrow> number \<Rightarrow> number \<Rightarrow> json list \<Rightarrow> string + json list" where
  "page e skip limit xs =
     (case skip of
        Num s \<Rightarrow>
          (case limit of
             Num l \<Rightarrow>
               if s < 0 then Inl ''skip value must be non-negative''
               else let ys = drop (nat s) xs
                    in Inr (if l = 0 then ys else take (nat \<bar>l\<bar>) ys)
           | _ \<Rightarrow> odd_page e skip limit xs)
      | _ \<Rightarrow> odd_page e skip limit xs)"

text \<open>\<open>find(filter).sort(s).skip(skip).limit(limit).toArray()\<close>: one store operation.\<close>

definition find_sorted ::
  "env \<Rightarrow> kind \<Rightarrow> (json \<Rightarrow> bool) \<Rightarrow> (string \<times> bool) list \<Rightarrow> number \<Rightarrow> number \<Rightarrow> json list io" where
  "find_sorted e k P s skip limit =
     store_call e (\<lambda>w. (page e skip limit (sort_docs s (filter P (docs w k))), w))"


section \<open>The model classes\<close>

text \<open>
  \<open>Topic\<close>, \<open>Category\<close>, \<open>Event\<close> and \<open>Note\<close>, each over its own collection. The
  argument of \<open>create\<close> and \<open>update\<close> is an object; the methods write into it, so the
  model returns what they leave behind.
\<close>

text \<open>\<open>if (!data.id) data.id = new ObjectId().toString()\<close>.\<close>

definition generate_id :: "env \<Rightarrow> json \<Rightarrow> json io" where
  "generate_id e d =
     (if truthy_opt (field d ''id'') then ret d
      else bind new_ObjectId (\<lambda>n. ret (assign ''id'' (JStr (oid_text e n)) d)))"

text \<open>\<open>return result.insertedId ? data : null\<close>: an acknowledged insert has an \<open>insertedId\<close>.\<close>

definition insert_and_return :: "env \<Rightarrow> kind \<Rightarrow> json \<Rightarrow> json option io" where
  "insert_and_return e k d = bind (insertOne e k d) (\<lambda>d'. ret (Some d'))"

definition Topic_create :: "env \<Rightarrow> json \<Rightarrow> json option io" where
  "Topic_create e topicData =
     bind (generate_id e topicData) (\<lambda>d. insert_and_return e Topics d)"

definition Category_create :: "env \<Rightarrow> json \<Rightarrow> json option io" where
  "Category_create e categoryData =
     bind (generate_id e categoryData) (\<lambda>d.
       insert_and_return e Categories
         (if truthy_opt (field d ''subcategories'') then d
          else assign ''subcategories'' (JArr []) d))"

definition Event_create :: "env \<Rightarrow> json \<Rightarrow> json option io" where
  "Event_create e eventData =
     bind (generate_id e eventData) (\<lambda>d.
       insert_and_return e Events
         (if truthy_opt (field d ''timeline'') then d
          else assign ''timeline'' (JObj [(''events'', JArr [])]) d))"

definition Note_create :: "env \<Rightarrow> json \<Rightarrow> json option io" where
  "Note_create e noteData =
     bind (generate_id e noteData) (\<lambda>d0.
     bind (new_Date e) (\<lambda>now.
       let d1 = assign ''created_at'' (or_default d0 ''created_at'' now) d0;
           d2 = assign ''updated_at'' (or_default d1 ''updated_at'' now) d1;
           d3 = assign ''tags'' (or_default d2 ''tags'' (JArr [])) d2;
           d4 = assign ''metadata'' (or_default d3 ''metadata'' (JObj [])) d3;
           d5 = assign ''is_archived'' (or_default d4 ''is_archived'' (JBool False)) d4
       in insert_and_return e Notes d5))"

text \<open>\<open>findById\<close> is the same in the four classes: \<open>collection.findOne({ id })\<close>.\<close>

definition findById :: "env \<Rightarrow> kind \<Rightarrow> json \<Rightarrow> json option io" where
  "findById e k x = findOne e k x"

text \<open>
  \<open>update\<close> returns \<open>modifiedCount > 0\<close>. \<open>Note.update\<close> first writes the current time
  into \<open>updateData.updated_at\<close>.
\<close>

definition Topic_update :: "env \<Rightarrow> json \<Rightarrow> json \<Rightarrow> bool io" where
  "Topic_update e x updateData = bind (updateOne e Topics x updateData) (\<lambda>n. ret (n > 0))"

definition Category_update :: "env \<Rightarrow> json \<Rightarrow> json \<Rightarrow> bool io" where
  "Category_update e x updateData = bind (updateOne e Categories x updateData) (\<lambda>n. ret (n > 0))"

definition Event_update :: "env \<Rightarrow> json \<Rightarrow> json \<Rightarrow> bool io" where
  "Event_update e x updateData = bind (updateOne e Events x updateData) (\<lambda>n. ret (n > 0))"

definition Note_update :: "env \<Rightarrow> json \<Rightarrow> json \<Rightarrow> bool io" where
  "Note_update e x updateData =
     bind (new_Date e) (\<lambda>now.
     bind (updateOne e Notes x (assign ''updated_at'' now updateData)) (\<lambda>n. ret (n > 0)))"

text \<open>\<open>delete\<close> is the same in the four classes: \<open>deletedCount > 0\<close>.\<close>

definition delete_by_id :: "env \<Rightarrow> kind \<Rightarrow> json \<Rightarrow> bool io" where
  "delete_by_id e k x = bind (deleteOne e k x) (\<lambda>n. ret (n > 0))"

subsection \<open>Listings\<close>

definition Topic_getAll :: "env \<Rightarrow> number \<Rightarrow> number \<Rightarrow> json list io" where
  "Topic_getAll e limit skip =
     find_sorted e Topics (\<lambda>d. True) [(''priority'', True), (''name'', False)] skip limit"

definition Category_findAll :: "env \<Rightarrow> number \<Rightarrow> number \<Rightarrow> json list io" where
  "Category_findAll e limit skip =
     find_sorted e Categories (\<lambda>d. True) [(''name'', False)] skip limit"

definition Category_getAll :: "env \<Rightarrow> number \<Rightarrow> number \<Rightarrow> json list io" where
  "Category_getAll e limit skip = Category_findAll e limit skip"

definition Note_getRecent :: "env \<Rightarrow> number \<Rightarrow> json list io" where
  "Note_getRecent e limit =
     find_sorted e Notes (\<lambda>d. eq_match (JBool False) (field d ''is_archived''))
       [(''created_at'', True)] (Num 0) limit"

subsection \<open>Searches\<close>

text \<open>
  \<open>{ f: { $regex: keyword, $options: 'i' } }\<close>: whether the expression matches a stored
  value is the platform's; a missing field never matches. A dotted path through an array
  of sub-documents matches when one of them does.
\<close>

definition regex_field :: "env \<Rightarrow> string \<Rightarrow> json \<Rightarrow> string \<Rightarrow> bool" where
  "regex_field e keyword d f =
     (case field d f of None \<Rightarrow> False | Some v \<Rightarrow> regex_match e keyword v)"

definition regex_subfield :: "env \<Rightarrow> string \<Rightarrow> json \<Rightarrow> string \<Rightarrow> string \<Rightarrow> bool" where
  "regex_subfield e keyword d f g =
     (case field d f of
        Some (JArr subs) \<Rightarrow> list_ex (\<lambda>sub. regex_field e keyword sub g) subs
      | Some sub \<Rightarrow> regex_field e keyword sub g
      | None \<Rightarrow> False)"

text \<open>A search is one store operation; an expression the database cannot compile throws.\<close>

definition search_sorted ::
  "env \<Rightarrow> kind \<Rightarrow> string \<Rightarrow> (json \<Rightarrow> bool) \<Rightarrow> (string \<times> bool) list \<Rightarrow> number \<Rightarrow> number
     \<Rightarrow> json list io" where
  "search_sorted e k keyword P s skip limit =
     store_call e (\<lambda>w.
       if regex_valid e keyword then (page e skip limit (sort_docs s (filter P (docs w k))), w)
       else (Inl ''Regular expression is invalid'', w))"

definition Topic_search :: "env \<Rightarrow> string \<Rightarrow> number \<Rightarrow> number \<Rightarrow> json list io" where
  "Topic_search e keyword limit skip =
     search_sorted e Topics keyword
       (\<lambda>d. regex_field e keyword d ''name'' \<or> regex_field e keyword d ''description''
            \<or> eq_match (JStr keyword) (field d ''keywords''))
       [(''priority'', True)] skip limit"

definition Category_search :: "env \<Rightarrow> string \<Rightarrow> number \<Rightarrow> number \<Rightarrow> json list io" where
  "Category_search e keyword limit skip =
     search_sorted e Categories keyword
       (\<lambda>d. regex_field e keyword d ''name'' \<or> regex_field e keyword d ''description''
            \<or> eq_match (JStr keyword) (field d ''keywords'')
            \<or> regex_subfield e keyword d ''subcategories'' ''name'')
       [(''name'', False)] skip limit"

definition Event_search :: "env \<Rightarrow> string \<Rightarrow> number \<Rightarrow> number \<Rightarrow> json list io" where
  "Event_search e keyword limit skip =
     search_sorted e Events keyword
       (\<lambda>d. regex_field e keyword d ''description'')
       [(''date'', True)] skip limit"

definition Note_search :: "env \<Rightarrow> string \<Rightarrow> number \<Rightarrow> number \<Rightarrow> json list io" where
  "Note_search e keyword limit skip =
     search_sorted e Notes keyword
       (\<lambda>d. regex_field e keyword d ''content''
            \<and> eq_match (JBool False) (field d ''is_archived''))
       [(''created_at'', True)] skip limit"


section \<open>The validators\<close>

text \<open>
  Each validator builds an object schema and calls
  \<open>schema.validate(data, { stripUnknown: true, abortEarly: false })\<close>. A schema is the list
  of its keys in the order written, each with its \<open>required()\<close> flag and its rule.
\<close>

type_synonym schema = "(string \<times> bool \<times> rule) list"

definition dquote :: "string \<Rightarrow> string" where
  "dquote s = CHR 0x22 # s @ [CHR 0x22]"

definition squote :: "string \<Rightarrow> string" where
  "squote s = CHR 0x27 # s @ [CHR 0x27]"

text \<open>
  The library's object check: an object passes as it is, an array or a primitive does not,
  and whether a string is read as JSON text is the platform's.
\<close>

definition as_object :: "env \<Rightarrow> json \<Rightarrow> (string \<times> json) list option" where
  "as_object e data =
     (case data of JObj kvs \<Rightarrow> Some kvs | JStr s \<Rightarrow> joi_parse e s | _ \<Rightarrow> None)"

text \<open>
  The error messages, key by key in schema order (with \<open>abortEarly: false\<close> all keys are
  visited; the caller reads \<open>details[0]\<close>). A key that is absent fails only when required.
\<close>

fun key_errors :: "env \<Rightarrow> schema \<Rightarrow> (string \<times> json) list \<Rightarrow> string list" where
  "key_errors e [] kvs = []"
| "key_errors e ((k, required, r) # ks) kvs =
     (case map_of kvs k of
        None \<Rightarrow> (if required then [dquote k @ '' is required''] else [])
      | Some v \<Rightarrow> (case joi_rule e r v of Inl m \<Rightarrow> [m] | Inr _ \<Rightarrow> []))
     @ key_errors e ks kvs"

text \<open>
  The validated value: each declared key keeps its place and takes its converted value;
  with \<open>stripUnknown\<close> a key the schema does not declare is deleted.
\<close>

fun strip_and_convert :: "env \<Rightarrow> schema \<Rightarrow> (string \<times> json) list \<Rightarrow> (string \<times> json) list" where
  "strip_and_convert e sch [] = []"
| "strip_and_convert e sch ((k, v) # kvs) =
     (case map_of sch k of
        None \<Rightarrow> strip_and_convert e sch kvs
      | Some (required, r) \<Rightarrow>
          (k, case joi_rule e r v of Inl _ \<Rightarrow> v | Inr v' \<Rightarrow> v') # strip_and_convert e sch kvs)"

definition schema_validate :: "env \<Rightarrow> schema \<Rightarrow> json \<Rightarrow> string + json" where
  "schema_validate e sch data =
     (case as_object e data of
        None \<Rightarrow> Inl (dquote ''value'' @ '' must be of type object'')
      | Some kvs \<Rightarrow>
          (case key_errors e sch kvs of
             m # _ \<Rightarrow> Inl m
           | [] \<Rightarrow> Inr (JObj (strip_and_convert e sch kvs))))"

definition topic_schema :: "bool \<Rightarrow> schema" where
  "topic_schema isUpdate =
     [(''id'', False, String_trim),
      (''name'', \<not> isUpdate, String_trim),
      (''description'', False, String_allow_empty),
      (''image_urls'', False, Array_items String_uri),
      (''keywords'', False, Array_items String_trim),
      (''articles_ids'', False, Array_items String_trim),
      (''categories_ids'', False, Array_items String_trim),
      (''related_topics_ids'', False, Array_items String_trim),
      (''timeline'', False, Object_any),
      (''unread_count'', False, Integer_min 0),
      (''priority'', False, Integer_min_max 0 10)]"

definition validateTopic :: "env \<Rightarrow> json \<Rightarrow> bool \<Rightarrow> string + json" where
  "validateTopic e data isUpdate = schema_validate e (topic_schema isUpdate) data"

definition subcategorySchema :: schema where
  "subcategorySchema =
     [(''id'', True, String_trim),
      (''name'', True, String_trim),
      (''description'', False, String_allow_empty),
      (''topics_ids'', False, Array_items String_trim),
      (''unread_count'', False, Integer_min 0),
      (''priority'', False, Integer_min_max 0 10)]"

definition category_schema :: "bool \<Rightarrow> schema" where
  "category_schema isUpdate =
     [(''id'', False, String_trim),
      (''name'', \<not> isUpdate, String_trim),
      (''description'', False, String_allow_empty),
      (''image_urls'', False, Array_items String_uri),
      (''keywords'', False, Array_items String_trim),
      (''topics_ids'', False, Array_items String_trim),
      (''subcategories'', False, Array_items (Object_keys subcategorySchema)),
      (''unread_count'', False, Integer_min 0),
      (''priority'', False, Integer_min_max 0 10)]"

definition validateCategory :: "env \<Rightarrow> json \<Rightarrow> bool \<Rightarrow> string + json" where
  "validateCategory e data isUpdate = schema_validate e (category_schema isUpdate) data"

definition timelineItemSchema :: schema where
  "timelineItemSchema =
     [(''date'', True, Date_rule),
      (''description'', True, String_plain),
      (''articles_ids'', False, Array_items String_trim)]"

definition event_schema :: "bool \<Rightarrow> schema" where
  "event_schema isUpdate =
     [(''id'', False, String_trim),
      (''date'', \<not> isUpdate, Date_rule),
      (''description'', \<not> isUpdate, String_plain),
      (''image_urls'', False, Array_items String_uri),
      (''related_events_ids'', False, Array_items String_trim),
      (''articles_ids'', False, Array_items String_trim),
      (''timeline'', False, Array_items (Object_keys timelineItemSchema)),
      (''unread_count'', False, Integer_min 0),
      (''priority'', False, Integer_min_max 0 10)]"

definition validateEvent :: "env \<Rightarrow> json \<Rightarrow> bool \<Rightarrow> string + json" where
  "validateEvent e data isUpdate = schema_validate e (event_schema isUpdate) data"

definition validReferenceTypes :: "string list" where
  "validReferenceTypes = [''article'', ''topic'', ''category'', ''event'']"

definition note_schema :: "bool \<Rightarrow> schema" where
  "note_schema isUpdate =
     [(''id'', False, String_trim),
      (''content'', \<not> isUpdate, String_plain),
      (''created_at'', False, Date_rule),
      (''updated_at'', False, Date_rule),
      (''reference_type'', \<not> isUpdate, String_valid validReferenceTypes),
      (''reference_id'', \<not> isUpdate, String_trim),
      (''tags'', False, Array_items String_trim),
      (''metadata'', False, Object_any),
      (''priority'', False, Integer_min_max 0 10),
      (''is_archived'', False, Boolean_rule)]"

definition validateNote :: "env \<Rightarrow> json \<Rightarrow> bool \<Rightarrow> string + json" where
  "validateNote e data isUpdate = schema_validate e (note_schema isUpdate) data"


section \<open>The entity controller\<close>

text \<open>
  What \<open>const { models } = db.getModels()\<close> yields: the call throws, or the object it
  returns has no property \<open>models\<close>, or \<open>models\<close> is a registry in which a kind's model is
  present or not.
\<close>

datatype handle = Unavailable string | No_registry | Registry "kind \<Rightarrow> bool"

text \<open>What a handler does with the request: it sends a status and a body, or calls \<open>next(error)\<close>.\<close>

datatype 'a reply = Respond nat 'a | Next_error string

fun kind_key :: "kind \<Rightarrow> string" where
  "kind_key Topics = ''topics''"
| "kind_key Categories = ''categories''"
| "kind_key Events = ''events''"
| "kind_key Notes = ''notes''"

fun kind_label :: "kind \<Rightarrow> string" where
  "kind_label Topics = ''Topic''"
| "kind_label Categories = ''Category''"
| "kind_label Events = ''Event''"
| "kind_label Notes = ''Note''"

fun kind_word :: "kind \<Rightarrow> string" where
  "kind_word Topics = ''topic''"
| "kind_word Categories = ''category''"
| "kind_word Events = ''event''"
| "kind_word Notes = ''note''"

text \<open>
  \<open>models.<kind>.<method>(...)\<close>: reading a property of \<open>undefined\<close> throws a \<open>TypeError\<close>
  before the method runs.
\<close>

definition model_call :: "handle \<Rightarrow> kind \<Rightarrow> string \<Rightarrow> 'a io \<Rightarrow> 'a io" where
  "model_call h k method act =
     (case h of
        Registry present \<Rightarrow>
          if present k then act
          else throw (''Cannot read properties of undefined (reading '' @ squote method @ '')'')
      | _ \<Rightarrow> throw (''Cannot read properties of undefined (reading '' @ squote (kind_key k) @ '')''))"

fun validate :: "env \<Rightarrow> kind \<Rightarrow> json \<Rightarrow> bool \<Rightarrow> string + json" where
  "validate e Topics = validateTopic e"
| "validate e Categories = validateCategory e"
| "validate e Events = validateEvent e"
| "validate e Notes = validateNote e"

fun model_create :: "env \<Rightarrow> kind \<Rightarrow> json \<Rightarrow> json option io" where
  "model_create e Topics = Topic_create e"
| "model_create e Categories = Category_create e"
| "model_create e Events = Event_create e"
| "model_create e Notes = Note_create e"

fun model_update :: "env \<Rightarrow> kind \<Rightarrow> json \<Rightarrow> json \<Rightarrow> bool io" where
  "model_update e Topics = Topic_update e"
| "model_update e Categories = Category_update e"
| "model_update e Events = Event_update e"
| "model_update e Notes = Note_update e"

subsection \<open>createOrUpdateEntities\<close>

text \<open>
  The four blocks of the handler (topics, categories, events, notes) are the same code up to
  the validator, the model, the words in the messages and the defaults of a new entity;
  \<open>k\<close> selects them. An item ends in exactly one of the three arrays of its kind.
\<close>

datatype outcome = Created json | Updated json | Failed json

definition error_entry :: "json \<Rightarrow> string \<Rightarrow> json" where
  "error_entry item m = JObj [(''data'', item), (''error'', JStr m)]"

text \<open>\<open>x.f = x.f || gen()\<close>, where \<open>gen\<close> runs only when \<open>x.f\<close> is falsy.\<close>

definition default_from :: "string \<Rightarrow> json io \<Rightarrow> json \<Rightarrow> json io" where
  "default_from f gen d =
     (if truthy_opt (field d f) then ret d else bind gen (\<lambda>v. ret (assign f v d)))"

text \<open>
  The entity to create: a copy of the validated value with a generated \<open>id\<close> and the
  defaults of its kind. The notes block sets \<open>created_at\<close>, \<open>updated_at\<close> and \<open>is_archived\<close>;
  the other three set \<open>unread_count\<close> and \<open>priority\<close>.
\<close>

definition to_create :: "env \<Rightarrow> kind \<Rightarrow> json \<Rightarrow> json io" where
  "to_create e k v =
     bind (default_from ''id'' (new_uuid e) v) (\<lambda>d0.
       case k of
         Notes \<Rightarrow>
           bind (default_from ''created_at'' (new_Date e) d0) (\<lambda>d1.
           bind (default_from ''updated_at'' (new_Date e) d1) (\<lambda>d2.
           ret (assign ''is_archived'' (or_default d2 ''is_archived'' (JBool False)) d2)))
       | _ \<Rightarrow>
           let d1 = assign ''unread_count'' (or_default d0 ''unread_count'' (JNum 0)) d0
           in ret (assign ''priority'' (or_default d1 ''priority'' (JNum 0)) d1))"

text \<open>The branch for an item with an \<open>id\<close>: look it up, update it, read it back.\<close>

definition update_entity :: "handle \<Rightarrow> env \<Rightarrow> kind \<Rightarrow> json \<Rightarrow> json \<Rightarrow> json \<Rightarrow> outcome io" where
  "update_entity h e k item v vid =
     bind (model_call h k ''findById'' (findById e k vid)) (\<lambda>existing.
       case existing of
         None \<Rightarrow> ret (Failed (error_entry item
                   (kind_label k @ '' with ID '' @ to_text e vid @ '' not found'')))
       | Some _ \<Rightarrow>
           bind (model_call h k ''update'' (model_update e k vid v)) (\<lambda>updated.
             if \<not> updated then ret (Failed (error_entry item
                   (''Failed to update '' @ kind_word k @ '' with ID '' @ to_text e vid)))
             else bind (model_call h k ''findById'' (findById e k vid)) (\<lambda>d.
                    ret (Updated (case d of None \<Rightarrow> JNull | Some d' \<Rightarrow> d')))))"

text \<open>The branch for an item without an \<open>id\<close>.\<close>

definition create_entity :: "handle \<Rightarrow> env \<Rightarrow> kind \<Rightarrow> json \<Rightarrow> json \<Rightarrow> outcome io" where
  "create_entity h e k item v =
     bind (to_create e k v) (\<lambda>d.
     bind (model_call h k ''create'' (model_create e k d)) (\<lambda>c.
       case c of
         None \<Rightarrow> ret (Failed (error_entry item (''Failed to create '' @ kind_word k)))
       | Some d' \<Rightarrow> ret (Created d')))"

text \<open>
  The body of the \<open>try\<close> block for one item. The update flag of the validator is read from
  the raw item, the branch from the validated value.
\<close>

definition upsert_attempt :: "handle \<Rightarrow> env \<Rightarrow> kind \<Rightarrow> json \<Rightarrow> outcome io" where
  "upsert_attempt h e k item =
     (if item = JNull then throw (''Cannot read properties of null (reading '' @ squote ''id'' @ '')'')
      else case validate e k item (truthy_opt (field item ''id'')) of
        Inl m \<Rightarrow> ret (Failed (error_entry item (''Validation error: '' @ m)))
      | Inr v \<Rightarrow>
          (case field v ''id'' of
             Some vid \<Rightarrow>
               if truthy vid then update_entity h e k item v vid else create_entity h e k item v
           | None \<Rightarrow> create_entity h e k item v))"

text \<open>The \<open>catch\<close> of the item: the thrown message becomes an error entry.\<close>

definition upsert_item :: "handle \<Rightarrow> env \<Rightarrow> kind \<Rightarrow> json \<Rightarrow> world \<Rightarrow> outcome \<times> world" where
  "upsert_item h e k item w =
     (case upsert_attempt h e k item w of
        (Inl m, w') \<Rightarrow> (Failed (error_entry item m), w')
      | (Inr out, w') \<Rightarrow> (out, w'))"

text \<open>The \<open>for\<close> loop over one kind's items, pushing onto \<open>created\<close>, \<open>updated\<close>, \<open>errors\<close>.\<close>

fun upsert_loop ::
  "handle \<Rightarrow> env \<Rightarrow> kind \<Rightarrow> json list \<Rightarrow> json list \<times> json list \<times> json list \<Rightarrow> world
     \<Rightarrow> (json list \<times> json list \<times> json list) \<times> world" where
  "upsert_loop h e k [] acc w = (acc, w)"
| "upsert_loop h e k (item # items) (c, u, er) w =
     (case upsert_item h e k item w of
        (Created d, w') \<Rightarrow> upsert_loop h e k items (c @ [d], u, er) w'
      | (Updated d, w') \<Rightarrow> upsert_loop h e k items (c, u @ [d], er) w'
      | (Failed x, w') \<Rightarrow> upsert_loop h e k items (c, u, er @ [x]) w')"

text \<open>
  The response object. \<open>created\<close>, \<open>updated\<close> and \<open>errors\<close> are objects keyed by kind, in the
  order the keys were added.
\<close>

type_synonym by_kind = "(string \<times> json list) list"

record envelope =
  success :: bool
  errors :: by_kind

record upsert_response = envelope +
  created :: by_kind
  updated :: by_kind

text \<open>
  One kind's block: entered when \<open>req.body.<kind>\<close> is a non-empty array, and then the three
  arrays of the kind exist in the response.
\<close>

definition upsert_kind ::
  "handle \<Rightarrow> env \<Rightarrow> json \<Rightarrow> kind \<Rightarrow> upsert_response \<times> world \<Rightarrow> upsert_response \<times> world" where
  "upsert_kind h e body k rw =
     (case rw of (r, w) \<Rightarrow>
        (case field body (kind_key k) of
           Some (JArr (item # items)) \<Rightarrow>
             (case upsert_loop h e k (item # items) ([], [], []) w of
                ((c, u, er), w') \<Rightarrow>
                  (r\<lparr>created := created r @ [(kind_key k, c)],
                     updated := updated r @ [(kind_key k, u)],
                     errors := errors r @ [(kind_key k, er)]\<rparr>, w'))
         | _ \<Rightarrow> (r, w)))"

text \<open>\<open>Object.keys(o).forEach(key => { if (o[key].length === 0) delete o[key] })\<close>.\<close>

definition prune :: "by_kind \<Rightarrow> by_kind" where
  "prune obj = filter (\<lambda>(key, xs). xs \<noteq> []) obj"

definition createOrUpdateEntities ::
  "handle \<Rightarrow> env \<Rightarrow> json \<Rightarrow> world \<Rightarrow> upsert_response reply \<times> world" where
  "createOrUpdateEntities h e body w =
     (case h of
        Unavailable m \<Rightarrow> (Next_error m, w)
      | _ \<Rightarrow>
          if body = JNull
          then (Next_error (''Cannot read properties of null (reading '' @ squote ''topics'' @ '')''), w)
          else
            (case fold (upsert_kind h e body) [Topics, Categories, Events, Notes]
                    (\<lparr>success = True, errors = [], created = [], updated = []\<rparr>, w) of
               (r, w') \<Rightarrow>
                 let r1 = r\<lparr>created := prune (created r), updated := prune (updated r),
                            errors := prune (errors r)\<rparr>;
                     r2 = r1\<lparr>success := (errors r1 = [])\<rparr>
                 in (Respond (if success r2 then 200 else 207) r2, w')))"


subsection \<open>getEntities\<close>

text \<open>
  Query parameters are strings: \<open>req.query\<close> is an association list from names to the
  text given, and a parameter that is not given is \<open>undefined\<close>.
\<close>

type_synonym query = "(string \<times> string) list"

text \<open>White space as \<open>trim\<close> sees it, among the code units below 256.\<close>

definition is_space :: "char \<Rightarrow> bool" where
  "is_space c = (of_char c \<in> {9, 10, 11, 12, 13, 32, 160 :: nat})"

definition trim :: "string \<Rightarrow> string" where
  "trim s = rev (dropWhile is_space (rev (dropWhile is_space s)))"

fun split :: "char \<Rightarrow> string \<Rightarrow> string list" where
  "split c [] = [[]]"
| "split c (x # xs) =
     (if x = c then [] # split c xs
      else (case split c xs of y # ys \<Rightarrow> (x # y) # ys | [] \<Rightarrow> [[x]]))"

definition parseIds :: "string option \<Rightarrow> string list" where
  "parseIds idString =
     (case idString of
        None \<Rightarrow> []
      | Some s \<Rightarrow> if s = [] then [] else filter (\<lambda>id. id \<noteq> []) (map trim (split CHR '','' s)))"

fun ids_param :: "kind \<Rightarrow> string" where
  "ids_param Topics = ''topicIds''"
| "ids_param Categories = ''categoryIds''"
| "ids_param Events = ''eventIds''"
| "ids_param Notes = ''noteIds''"

definition id_error :: "json \<Rightarrow> string \<Rightarrow> json" where
  "id_error x m = JObj [(''id'', x), (''error'', JStr m)]"

text \<open>One ID of the loop: the document goes to \<open>data\<close> (right), an entry to \<open>errors\<close> (left).\<close>

definition get_item :: "handle \<Rightarrow> env \<Rightarrow> kind \<Rightarrow> string \<Rightarrow> world \<Rightarrow> (json + json) \<times> world" where
  "get_item h e k x w =
     (case model_call h k ''findById'' (findById e k (JStr x)) w of
        (Inl m, w') \<Rightarrow> (Inl (id_error (JStr x) m), w')
      | (Inr None, w') \<Rightarrow>
          (Inl (id_error (JStr x) (kind_label k @ '' with ID '' @ x @ '' not found'')), w')
      | (Inr (Some d), w') \<Rightarrow> (Inr d, w'))"

fun get_loop ::
  "handle \<Rightarrow> env \<Rightarrow> kind \<Rightarrow> string list \<Rightarrow> json list \<times> json list \<Rightarrow> world
     \<Rightarrow> (json list \<times> json list) \<times> world" where
  "get_loop h e k [] acc w = (acc, w)"
| "get_loop h e k (x # xs) (ds, er) w =
     (case get_item h e k x w of
        (Inr d, w') \<Rightarrow> get_loop h e k xs (ds @ [d], er) w'
      | (Inl x', w') \<Rightarrow> get_loop h e k xs (ds, er @ [x']) w')"

record get_response = envelope +
  data :: by_kind

definition get_kind ::
  "handle \<Rightarrow> env \<Rightarrow> query \<Rightarrow> kind \<Rightarrow> get_response \<times> world \<Rightarrow> get_response \<times> world" where
  "get_kind h e q k rw =
     (case rw of (r, w) \<Rightarrow>
        (case parseIds (map_of q (ids_param k)) of
           [] \<Rightarrow> (r, w)
         | x # xs \<Rightarrow>
             (case get_loop h e k (x # xs) ([], []) w of
                ((ds, er), w') \<Rightarrow>
                  (r\<lparr>data := data r @ [(kind_key k, ds)],
                     errors := errors r @ [(kind_key k, er)]\<rparr>, w'))))"

definition getEntities :: "handle \<Rightarrow> env \<Rightarrow> query \<Rightarrow> world \<Rightarrow> get_response reply \<times> world" where
  "getEntities h e q w =
     (case h of
        Unavailable m \<Rightarrow> (Next_error m, w)
      | _ \<Rightarrow>
          (case fold (get_kind h e q) [Topics, Categories, Events, Notes]
                  (\<lparr>success = True, errors = [], data = []\<rparr>, w) of
             (r, w') \<Rightarrow>
               let r1 = r\<lparr>data := prune (data r), errors := prune (errors r)\<rparr>;
                   r2 = r1\<lparr>success := (errors r1 = [])\<rparr>
               in (Respond (if success r2 then 200 else 207) r2, w')))"

subsection \<open>deleteEntities\<close>

text \<open>
  One ID of the loop: the existence check, then the delete. The ID goes to \<open>deleted\<close>
  (right), or an entry to \<open>errors\<close> (left).
\<close>

definition delete_attempt :: "handle \<Rightarrow> env \<Rightarrow> kind \<Rightarrow> json \<Rightarrow> (json + json) io" where
  "delete_attempt h e k x =
     bind (model_call h k ''findById'' (findById e k x)) (\<lambda>existing.
       case existing of
         None \<Rightarrow> ret (Inl (id_error x (kind_label k @ '' with ID '' @ to_text e x @ '' not found'')))
       | Some _ \<Rightarrow>
           bind (model_call h k ''delete'' (delete_by_id e k x)) (\<lambda>deleted.
             if \<not> deleted
             then ret (Inl (id_error x
                    (''Failed to delete '' @ kind_word k @ '' with ID '' @ to_text e x)))
             else ret (Inr x)))"

definition delete_item :: "handle \<Rightarrow> env \<Rightarrow> kind \<Rightarrow> json \<Rightarrow> world \<Rightarrow> (json + json) \<times> world" where
  "delete_item h e k x w =
     (case delete_attempt h e k x w of
        (Inl m, w') \<Rightarrow> (Inl (id_error x m), w')
      | (Inr r, w') \<Rightarrow> (r, w'))"

fun delete_loop ::
  "handle \<Rightarrow> env \<Rightarrow> kind \<Rightarrow> json list \<Rightarrow> json list \<times> json list \<Rightarrow> world
     \<Rightarrow> (json list \<times> json list) \<times> world" where
  "delete_loop h e k [] acc w = (acc, w)"
| "delete_loop h e k (x # xs) (ds, er) w =
     (case delete_item h e k x w of
        (Inr d, w') \<Rightarrow> delete_loop h e k xs (ds @ [d], er) w'
      | (Inl x', w') \<Rightarrow> delete_loop h e k xs (ds, er @ [x']) w')"

record delete_response = envelope +
  deleted :: by_kind

definition delete_kind ::
  "handle \<Rightarrow> env \<Rightarrow> json \<Rightarrow> kind \<Rightarrow> delete_response \<times> world \<Rightarrow> delete_response \<times> world" where
  "delete_kind h e body k rw =
     (case rw of (r, w) \<Rightarrow>
        (case field body (ids_param k) of
           Some (JArr (x # xs)) \<Rightarrow>
             (case delete_loop h e k (x # xs) ([], []) w of
                ((ds, er), w') \<Rightarrow>
                  (r\<lparr>deleted := deleted r @ [(kind_key k, ds)],
                     errors := errors r @ [(kind_key k, er)]\<rparr>, w'))
         | _ \<Rightarrow> (r, w)))"

definition deleteEntities :: "handle \<Rightarrow> env \<Rightarrow> json \<Rightarrow> world \<Rightarrow> delete_response reply \<times> world" where
  "deleteEntities h e body w =
     (case h of
        Unavailable m \<Rightarrow> (Next_error m, w)
      | _ \<Rightarrow>
          if body = JNull
          then (Next_error (''Cannot read properties of null (reading '' @ squote ''topicIds'' @ '')''), w)
          else
            (case fold (delete_kind h e body) [Topics, Categories, Events, Notes]
                    (\<lparr>success = True, errors = [], deleted = []\<rparr>, w) of
               (r, w') \<Rightarrow>
                 let r1 = r\<lparr>deleted := prune (deleted r), errors := prune (errors r)\<rparr>;
                     r2 = r1\<lparr>success := (errors r1 = [])\<rparr>
                 in (Respond (if success r2 then 200 else 207) r2, w')))"


subsection \<open>Listings\<close>

text \<open>The fixed data the topic and category listings fall back to.\<close>

definition getSampleCategories :: "json list" where
  "getSampleCategories =
     [JObj
        [(''id'', JStr ''cat1''),
         (''name'', JStr ''Technology''),
         (''description'', JStr ''News and developments in the technology sector''),
         (''keywords'', JArr [JStr ''tech'', JStr ''digital'', JStr ''innovation'']),
         (''image_urls'', JArr []),
         (''topics_ids'', JArr [JStr ''topic3'', JStr ''topic4'']),
         (''unread_count'', JNum 12),
         (''priority'', JNum 2),
         (''subcategories'', JArr
           [JObj
              [(''id'', JStr ''subcat1''),
               (''name'', JStr ''Artificial Intelligence''),
               (''description'', JStr ''Machine learning, neural networks, and AI research''),
               (''keywords'', JArr [JStr ''AI'', JStr ''ML'', JStr ''deep learning'']),
               (''unread_count'', JNum 5),
               (''topics_ids'', JArr [JStr ''topic1'', JStr ''topic2''])],
            JObj
              [(''id'', JStr ''subcat2''),
               (''name'', JStr ''Cybersecurity''),
               (''description'', JStr ''Digital security, threats, and protective measures''),
               (''keywords'', JArr [JStr ''security'', JStr ''hacking'', JStr ''privacy'']),
               (''unread_count'', JNum 7),
               (''topics_ids'', JArr [JStr ''topic3''])]])],
      JObj
        [(''id'', JStr ''cat2''),
         (''name'', JStr ''Business''),
         (''description'', JStr ''Corporate news, markets, and economic developments''),
         (''keywords'', JArr [JStr ''finance'', JStr ''economy'', JStr ''markets'']),
         (''image_urls'', JArr []),
         (''topics_ids'', JArr [JStr ''topic5'', JStr ''topic6'']),
         (''unread_count'', JNum 8),
         (''priority'', JNum 1),
         (''subcategories'', JArr
           [JObj
              [(''id'', JStr ''subcat3''),
               (''name'', JStr ''Finance''),
               (''description'', JStr ''Banking, investments, and financial markets''),
               (''keywords'', JArr [JStr ''investing'', JStr ''markets'', JStr ''banking'']),
               (''unread_count'', JNum 3),
               (''topics_ids'', JArr [JStr ''topic5''])]])],
      JObj
        [(''id'', JStr ''cat3''),
         (''name'', JStr ''Politics''),
         (''description'', JStr ''Government affairs, policy, and political developments''),
         (''keywords'', JArr [JStr ''government'', JStr ''policy'', JStr ''elections'']),
         (''image_urls'', JArr []),
         (''topics_ids'', JArr [JStr ''topic8'', JStr ''topic9'']),
         (''unread_count'', JNum 15),
         (''priority'', JNum 3),
         (''subcategories'', JArr
           [JObj
              [(''id'', JStr ''subcat4''),
               (''name'', JStr ''International Relations''),
               (''description'', JStr ''Diplomacy, global affairs, and international cooperation''),
               (''keywords'', JArr [JStr ''diplomacy'', JStr ''foreign policy'', JStr ''international'']),
               (''unread_count'', JNum 6),
               (''topics_ids'', JArr [JStr ''topic8'', JStr ''topic9''])]])]]"

definition getSampleTopics :: "json list" where
  "getSampleTopics =
     [JObj
        [(''id'', JStr ''topic1''),
         (''name'', JStr ''Machine Learning''),
         (''description'', JStr ''Statistical techniques enabling computers to improve based on experience''),
         (''keywords'', JArr [JStr ''algorithms'', JStr ''neural networks'', JStr ''deep learning'']),
         (''articles_ids'', JArr []),
         (''categories_ids'', JArr [JStr ''cat1'']),
         (''related_topics_ids'', JArr [JStr ''topic2'']),
         (''unread_count'', JNum 3)],
      JObj
        [(''id'', JStr ''topic2''),
         (''name'', JStr ''Natural Language Processing''),
         (''description'', JStr ''Processing and analyzing human language with AI''),
         (''keywords'', JArr [JStr ''NLP'', JStr ''text analysis'', JStr ''language models'']),
         (''articles_ids'', JArr []),
         (''categories_ids'', JArr [JStr ''cat1'']),
         (''related_topics_ids'', JArr [JStr ''topic1'']),
         (''unread_count'', JNum 2)],
      JObj
        [(''id'', JStr ''topic3''),
         (''name'', JStr ''Data Privacy''),
         (''description'', JStr ''Protecting personal and sensitive information''),
         (''keywords'', JArr [JStr ''privacy'', JStr ''data protection'', JStr ''GDPR'']),
         (''articles_ids'', JArr []),
         (''categories_ids'', JArr [JStr ''cat1'']),
         (''related_topics_ids'', JArr [JStr ''topic8'']),
         (''unread_count'', JNum 4)],
      JObj
        [(''id'', JStr ''topic4''),
         (''name'', JStr ''Cloud Computing''),
         (''description'', JStr ''On-demand availability of computer system resources''),
         (''keywords'', JArr [JStr ''cloud'', JStr ''SaaS'', JStr ''distributed computing'']),
         (''articles_ids'', JArr []),
         (''categories_ids'', JArr [JStr ''cat1'']),
         (''related_topics_ids'', JArr []),
         (''unread_count'', JNum 1)],
      JObj
        [(''id'', JStr ''topic5''),
         (''name'', JStr ''Stock Market''),
         (''description'', JStr ''News and analysis about equity markets''),
         (''keywords'', JArr [JStr ''stocks'', JStr ''equities'', JStr ''trading'']),
         (''articles_ids'', JArr []),
         (''categories_ids'', JArr [JStr ''cat2'']),
         (''related_topics_ids'', JArr [JStr ''topic9'']),
         (''unread_count'', JNum 2)],
      JObj
        [(''id'', JStr ''topic6''),
         (''name'', JStr ''Startups''),
         (''description'', JStr ''Emerging companies and entrepreneurship''),
         (''keywords'', JArr [JStr ''entrepreneurship'', JStr ''venture capital'', JStr ''innovation'']),
         (''articles_ids'', JArr []),
         (''categories_ids'', JArr [JStr ''cat2'']),
         (''related_topics_ids'', JArr []),
         (''unread_count'', JNum 3)],
      JObj
        [(''id'', JStr ''topic8''),
         (''name'', JStr ''Diplomacy''),
         (''description'', JStr ''International dialogue and negotiation between nations''),
         (''keywords'', JArr [JStr ''international relations'', JStr ''treaties'', JStr ''negotiations'']),
         (''articles_ids'', JArr []),
         (''categories_ids'', JArr [JStr ''cat3'']),
         (''related_topics_ids'', JArr [JStr ''topic9'', JStr ''topic3'']),
         (''unread_count'', JNum 3)],
      JObj
        [(''id'', JStr ''topic9''),
         (''name'', JStr ''Trade Agreements''),
         (''description'', JStr ''International trade policies and economic partnerships''),
         (''keywords'', JArr [JStr ''trade'', JStr ''tariffs'', JStr ''economic cooperation'']),
         (''articles_ids'', JArr []),
         (''categories_ids'', JArr [JStr ''cat3'']),
         (''related_topics_ids'', JArr [JStr ''topic5'', JStr ''topic8'']),
         (''unread_count'', JNum 3)]]"


text \<open>
  \<open>parseInt\<close> of a query parameter: leading white space, a sign, then the longest run of
  digits (hexadecimal after \<open>0x\<close>), and the result is the double nearest to the integer
  they denote: the integer itself up to \<open>2\<^sup>5\<^sup>3\<close>, the platform's rounding beyond. A missing
  parameter and a text without digits give \<open>NaN\<close>. \<open>n || d\<close> replaces \<open>NaN\<close> and 0.
\<close>

definition digit_of :: "nat \<Rightarrow> char \<Rightarrow> nat option" where
  "digit_of radix c =
     (let n = (of_char c :: nat);
          v = (if 48 \<le> n \<and> n \<le> 57 then Some (n - 48)
               else if 97 \<le> n \<and> n \<le> 122 then Some (n - 87)
               else if 65 \<le> n \<and> n \<le> 90 then Some (n - 55)
               else None)
      in case v of Some d \<Rightarrow> if d < radix then Some d else None | None \<Rightarrow> None)"

fun read_digits :: "nat \<Rightarrow> string \<Rightarrow> nat option \<Rightarrow> nat option" where
  "read_digits radix [] acc = acc"
| "read_digits radix (c # cs) acc =
     (case digit_of radix c of
        None \<Rightarrow> acc
      | Some d \<Rightarrow> read_digits radix cs (Some (radix * (case acc of None \<Rightarrow> 0 | Some a \<Rightarrow> a) + d)))"

fun read_unsigned :: "string \<Rightarrow> nat option" where
  "read_unsigned (a # b # cs) =
     (if a = CHR ''0'' \<and> (b = CHR ''x'' \<or> b = CHR ''X'') then read_digits 16 cs None
      else read_digits 10 (a # b # cs) None)"
| "read_unsigned cs = read_digits 10 cs None"

fun read_signed :: "string \<Rightarrow> int option" where
  "read_signed [] = None"
| "read_signed (c # cs) =
     (if c = CHR ''-'' then map_option (\<lambda>n. - int n) (read_unsigned cs)
      else if c = CHR ''+'' then map_option int (read_unsigned cs)
      else map_option int (read_unsigned (c # cs)))"

definition to_number :: "env \<Rightarrow> int \<Rightarrow> number" where
  "to_number e m =
     (if \<bar>m\<bar> \<le> 2 ^ 53 then Num m
      else case double_of e (nat \<bar>m\<bar>) of
             None \<Rightarrow> Infinity (m < 0)
           | Some n \<Rightarrow> Num (if m < 0 then - n else n))"

definition parseInt :: "env \<Rightarrow> string option \<Rightarrow> number" where
  "parseInt e x =
     (case x of
        None \<Rightarrow> NaN
      | Some s \<Rightarrow>
          (case read_signed (dropWhile is_space s) of
             None \<Rightarrow> NaN
           | Some m \<Rightarrow> to_number e m))"

definition number_or :: "number \<Rightarrow> int \<Rightarrow> number" where
  "number_or n d = (case n of NaN \<Rightarrow> Num d | Num v \<Rightarrow> if v = 0 then Num d else Num v
                    | Infinity negative \<Rightarrow> Infinity negative)"

text \<open>In a response body a number that is not finite is written as \<open>null\<close>.\<close>

definition number_json :: "number \<Rightarrow> json" where
  "number_json n = (case n of Num v \<Rightarrow> JNum v | _ \<Rightarrow> JNull)"

definition listing_body :: "string \<Rightarrow> json list \<Rightarrow> number \<Rightarrow> number \<Rightarrow> json" where
  "listing_body key xs limit skip =
     JObj [(key, JArr xs), (''count'', JNum (int (length xs))),
           (''pagination'', JObj [(''limit'', number_json limit), (''skip'', number_json skip)])]"

text \<open>
  \<open>getAllTopics\<close> answers with the sample topics when the handle cannot be obtained or holds
  no topics model. (The probe for a \<open>getAll\<close> or \<open>findAll\<close> method succeeds: the class defines
  \<open>getAll\<close>.) The query itself is not guarded: what it throws goes to \<open>next\<close>.
\<close>

definition getAllTopics :: "handle \<Rightarrow> env \<Rightarrow> query \<Rightarrow> world \<Rightarrow> json reply \<times> world" where
  "getAllTopics h e q w =
     (let limit = number_or (parseInt e (map_of q ''limit'')) 20;
          skip = number_or (parseInt e (map_of q ''skip'')) 0;
          sample = Respond 200 (listing_body ''topics'' getSampleTopics limit skip)
      in case h of
           Unavailable m \<Rightarrow> (sample, w)
         | No_registry \<Rightarrow> (sample, w)
         | Registry present \<Rightarrow>
             if \<not> present Topics then (sample, w)
             else (case Topic_getAll e limit skip w of
                     (Inl m, w') \<Rightarrow> (Next_error m, w')
                   | (Inr topics, w') \<Rightarrow>
                       (Respond 200 (listing_body ''topics'' topics limit skip), w')))"

text \<open>
  \<open>getAllCategories\<close> has the same three guards and a \<open>try\<close> around the query as well. (The
  result of \<open>toArray\<close> is an array, so the check of the result passes.)
\<close>

definition getAllCategories :: "handle \<Rightarrow> env \<Rightarrow> query \<Rightarrow> world \<Rightarrow> json reply \<times> world" where
  "getAllCategories h e q w =
     (let limit = number_or (parseInt e (map_of q ''limit'')) 20;
          skip = number_or (parseInt e (map_of q ''skip'')) 0;
          sample = Respond 200 (listing_body ''categories'' getSampleCategories limit skip)
      in case h of
           Unavailable m \<Rightarrow> (sample, w)
         | No_registry \<Rightarrow> (sample, w)
         | Registry present \<Rightarrow>
             if \<not> present Categories then (sample, w)
             else (case Category_getAll e limit skip w of
                     (Inl m, w') \<Rightarrow> (sample, w')
                   | (Inr categories, w') \<Rightarrow>
                       (Respond 200 (listing_body ''categories'' categories limit skip), w')))"

text \<open>
  \<open>getAllEvents\<close> calls \<open>models.events.getAll(limit, skip)\<close> inside the handler's only \<open>try\<close>.
  The \<open>Event\<close> class defines no \<open>getAll\<close>, so with the model present the call itself throws.
\<close>

definition getAllEvents :: "handle \<Rightarrow> env \<Rightarrow> query \<Rightarrow> world \<Rightarrow> json reply \<times> world" where
  "getAllEvents h e q w =
     (case h of
        Unavailable m \<Rightarrow> (Next_error m, w)
      | _ \<Rightarrow>
          (case model_call h Events ''getAll''
                  (throw ''models.events.getAll is not a function'' :: json list io) w of
             (Inl m, w') \<Rightarrow> (Next_error m, w')
           | (Inr events, w') \<Rightarrow>
               (Respond 200 (listing_body ''events'' events
                  (number_or (parseInt e (map_of q ''limit'')) 20)
                  (number_or (parseInt e (map_of q ''skip'')) 0)), w')))"

text \<open>\<open>getAllNotes\<close> calls \<open>models.notes.getRecent(limit)\<close> inside the handler's only \<open>try\<close>.\<close>

definition getAllNotes :: "handle \<Rightarrow> env \<Rightarrow> query \<Rightarrow> world \<Rightarrow> json reply \<times> world" where
  "getAllNotes h e q w =
     (let limit = number_or (parseInt e (map_of q ''limit'')) 20;
          skip = number_or (parseInt e (map_of q ''skip'')) 0
      in case h of
           Unavailable m \<Rightarrow> (Next_error m, w)
         | _ \<Rightarrow>
             (case model_call h Notes ''getRecent'' (Note_getRecent e limit) w of
                (Inl m, w') \<Rightarrow> (Next_error m, w')
              | (Inr notes, w') \<Rightarrow> (Respond 200 (listing_body ''notes'' notes limit skip), w')))"

fun getAll_of_kind :: "kind \<Rightarrow> handle \<Rightarrow> env \<Rightarrow> query \<Rightarrow> world \<Rightarrow> json reply \<times> world" where
  "getAll_of_kind Topics = getAllTopics"
| "getAll_of_kind Categories = getAllCategories"
| "getAll_of_kind Events = getAllEvents"
| "getAll_of_kind Notes = getAllNotes"

subsection \<open>searchEntities\<close>

definition toLowerCase :: "string \<Rightarrow> string" where
  "toLowerCase s = map (\<lambda>c. let n = (of_char c :: nat)
                            in if (65 \<le> n \<and> n \<le> 90) \<or> (192 \<le> n \<and> n \<le> 222 \<and> n \<noteq> 215)
                               then char_of (n + 32) else c) s"

fun model_search :: "env \<Rightarrow> kind \<Rightarrow> string \<Rightarrow> number \<Rightarrow> number \<Rightarrow> json list io" where
  "model_search e Topics = Topic_search e"
| "model_search e Categories = Category_search e"
| "model_search e Events = Event_search e"
| "model_search e Notes = Note_search e"






section \<open>A sample platform\<close>

text \<open>
  One platform and one empty store, for running the handlers on concrete requests: the
  validation library accepts a non-empty string for the string rules (trimming it where
  the rule says so), an integer in range, a date and a boolean; the database accepts every
  document and never fails; a regular expression is taken as plain text and matches a
  string that contains it, whatever the case of the letters, and is refused when its
  parentheses do not balance; the clock starts at 1000 and the \<open>n\<close>-th UUID is \<open>u\<close>
  followed by \<open>n\<close> dashes; an integer above \<open>2\<^sup>5\<^sup>3\<close> is rounded to 53 significant bits,
  to the even neighbour when half way.
\<close>

fun starts_with :: "string \<Rightarrow> string \<Rightarrow> bool" where
  "starts_with [] s = True"
| "starts_with (p # ps) [] = False"
| "starts_with (p # ps) (c # cs) = (p = c \<and> starts_with ps cs)"

fun contains :: "string \<Rightarrow> string \<Rightarrow> bool" where
  "contains p [] = (p = [])"
| "contains p (c # cs) = (starts_with p (c # cs) \<or> contains p cs)"

definition sample_match :: "string \<Rightarrow> json \<Rightarrow> bool" where
  "sample_match p v =
     (case v of
        JStr s \<Rightarrow> contains (toLowerCase p) (toLowerCase s)
      | JArr vs \<Rightarrow> list_ex (\<lambda>x. case x of JStr s \<Rightarrow> contains (toLowerCase p) (toLowerCase s)
                                       | _ \<Rightarrow> False) vs
      | _ \<Rightarrow> False)"

fun balanced :: "nat \<Rightarrow> string \<Rightarrow> bool" where
  "balanced n [] = (n = 0)"
| "balanced n (c # cs) =
     (if c = CHR ''('' then balanced (Suc n) cs
      else if c = CHR '')'' then (0 < n \<and> balanced (n - 1) cs)
      else balanced n cs)"

fun bit_length :: "nat \<Rightarrow> nat" where
  "bit_length n = (if n = 0 then 0 else Suc (bit_length (n div 2)))"

definition nearest_double :: "nat \<Rightarrow> int option" where
  "nearest_double m =
     (let sh = bit_length m - 53;
          q = m div 2 ^ sh;
          r = m mod 2 ^ sh;
          q' = (if 2 ^ sh < 2 * r \<or> (2 * r = 2 ^ sh \<and> odd q) then Suc q else q)
      in if 2 ^ 1024 \<le> q' * 2 ^ sh then None else Some (int (q' * 2 ^ sh)))"

definition wrong_type :: "string + json" where
  "wrong_type = Inl ''is of the wrong type''"

definition sample_string :: "rule \<Rightarrow> string \<Rightarrow> string + json" where
  "sample_string r s =
     (case r of
        String_plain \<Rightarrow> if s = [] then Inl ''is not allowed to be empty'' else Inr (JStr s)
      | String_trim \<Rightarrow> if trim s = [] then Inl ''is not allowed to be empty'' else Inr (JStr (trim s))
      | String_allow_empty \<Rightarrow> Inr (JStr s)
      | String_valid vs \<Rightarrow> if s \<in> set vs then Inr (JStr s) else Inl ''must be one of the valid values''
      | _ \<Rightarrow> wrong_type)"

definition sample_number :: "rule \<Rightarrow> int \<Rightarrow> string + json" where
  "sample_number r n =
     (case r of
        Integer_min lo \<Rightarrow> if lo \<le> n then Inr (JNum n) else Inl ''must not be below the minimum''
      | Integer_min_max lo hi \<Rightarrow> if lo \<le> n \<and> n \<le> hi then Inr (JNum n) else Inl ''must be in range''
      | Date_rule \<Rightarrow> Inr (JDate n)
      | _ \<Rightarrow> wrong_type)"

definition sample_rule :: "rule \<Rightarrow> json \<Rightarrow> string + json" where
  "sample_rule r v =
     (case v of
        JStr s \<Rightarrow> sample_string r s
      | JNum n \<Rightarrow> sample_number r n
      | JDate t \<Rightarrow> (case r of Date_rule \<Rightarrow> Inr (JDate t) | _ \<Rightarrow> wrong_type)
      | JBool b \<Rightarrow> (case r of Boolean_rule \<Rightarrow> Inr (JBool b) | _ \<Rightarrow> wrong_type)
      | JObj kvs \<Rightarrow> (case r of Object_any \<Rightarrow> Inr (JObj kvs) | _ \<Rightarrow> wrong_type)
      | _ \<Rightarrow> wrong_type)"

definition sample_env :: env where
  "sample_env =
     \<lparr>joi_rule = sample_rule,
      joi_parse = (\<lambda>s. None),
      accepts = (\<lambda>k d. True),
      outage = (\<lambda>n. None),
      other_match = (\<lambda>x v. False),
      regex_valid = balanced 0,
      regex_match = sample_match,
      render = (\<lambda>x. ''?''),
      time = (\<lambda>n. 1000 + int n),
      uuidv4 = (\<lambda>n. CHR ''u'' # replicate n CHR ''-''),
      oid_text = (\<lambda>n. CHR ''o'' # replicate n CHR ''-''),
      double_of = nearest_double,
      odd_page = (\<lambda>skip limit xs. Inl ''limit must be a finite number'')\<rparr>"

definition empty_world :: world where
  "empty_world = \<lparr>docs = (\<lambda>k. []), ops = 0, clock = 0, uuids = 0, oids = 0\<rparr>"

definition all_models :: handle where
  "all_models = Registry (\<lambda>k. True)"


definition keys_from :: "(kind \<Rightarrow> string) \<Rightarrow> json \<Rightarrow> by_kind \<Rightarrow> bool" where
  "keys_from param body obj =
     (\<forall>(key, xs) \<in> set obj.
        \<exists>k item items. key = kind_key k \<and> field body (param k) = Some (JArr (item # items)))"

definition scenario_A :: json where
  "scenario_A = JObj [(''topics'', JArr [JObj [(''name'', JStr ''AI'')]]),
                      (''categories'', JArr [JObj [(''invalid'', JStr ''x'')]])]"

fun created_of :: "outcome list \<Rightarrow> json list" where
  "created_of [] = []"
| "created_of (Created d # os) = d # created_of os"
| "created_of (_ # os) = created_of os"

fun updated_of :: "outcome list \<Rightarrow> json list" where
  "updated_of [] = []"
| "updated_of (Updated d # os) = d # updated_of os"
| "updated_of (_ # os) = updated_of os"

fun failed_of :: "outcome list \<Rightarrow> json list" where
  "failed_of [] = []"
| "failed_of (Failed x # os) = x # failed_of os"
| "failed_of (_ # os) = failed_of os"

definition entries :: "by_kind \<Rightarrow> kind \<Rightarrow> json list" where
  "entries obj k = (case map_of obj (kind_key k) of None \<Rightarrow> [] | Some xs \<Rightarrow> xs)"

definition all_entries :: "by_kind \<Rightarrow> string \<Rightarrow> json list" where
  "all_entries obj key = concat (map snd (filter (\<lambda>(key', xs). key' = key) obj))"

definition outcome_of_item :: "handle \<Rightarrow> env \<Rightarrow> kind \<Rightarrow> json \<Rightarrow> outcome \<Rightarrow> bool" where
  "outcome_of_item h e k item out = (\<exists>w1 w2. upsert_item h e k item w1 = (out, w2))"

definition note_hi :: json where
  "note_hi = JObj [(''content'', JStr ''hi''), (''reference_type'', JStr ''topic''),
                   (''reference_id'', JStr ''t1'')]"

definition stored_note_hi :: json where
  "stored_note_hi =
     JObj [(''content'', JStr ''hi''), (''reference_type'', JStr ''topic''),
           (''reference_id'', JStr ''t1''), (''id'', JStr ''u''), (''created_at'', JDate 1000),
           (''updated_at'', JDate 1001), (''is_archived'', JBool False), (''tags'', JArr []),
           (''metadata'', JObj []), (''_id'', JOid 0)]"

fun schema_of :: "kind \<Rightarrow> bool \<Rightarrow> schema" where
  "schema_of Topics = topic_schema"
| "schema_of Categories = category_schema"
| "schema_of Events = event_schema"
| "schema_of Notes = note_schema"

definition declared_keys :: "kind \<Rightarrow> string set" where
  "declared_keys k = set (map fst (schema_of k False))"

definition known_fields :: "kind \<Rightarrow> (string \<times> json) list \<Rightarrow> (string \<times> json) list" where
  "known_fields k kvs = filter (\<lambda>(key, x). key \<in> declared_keys k) kvs"

definition same_but_data :: "json \<Rightarrow> json \<Rightarrow> outcome \<times> world \<Rightarrow> outcome \<times> world \<Rightarrow> bool" where
  "same_but_data i1 i2 r1 r2 =
     (snd r1 = snd r2
      \<and> (case fst r1 of
            Created d \<Rightarrow> fst r2 = Created d
          | Updated d \<Rightarrow> fst r2 = Updated d
          | Failed x \<Rightarrow> (\<exists>m. x = error_entry i1 m \<and> fst r2 = Failed (error_entry i2 m))))"

text \<open>
  The filter and the sort order of each class's \<open>search\<close>, the kinds a request selects, and
  the matching documents of a kind in their order.
\<close>

fun search_match :: "env \<Rightarrow> kind \<Rightarrow> string \<Rightarrow> json \<Rightarrow> bool" where
  "search_match e Topics q d =
     (regex_field e q d ''name'' \<or> regex_field e q d ''description''
      \<or> eq_match (JStr q) (field d ''keywords''))"
| "search_match e Categories q d =
     (regex_field e q d ''name'' \<or> regex_field e q d ''description''
      \<or> eq_match (JStr q) (field d ''keywords'')
      \<or> regex_subfield e q d ''subcategories'' ''name'')"
| "search_match e Events q d = regex_field e q d ''description''"
| "search_match e Notes q d =
     (regex_field e q d ''content'' \<and> eq_match (JBool False) (field d ''is_archived''))"

fun search_order :: "kind \<Rightarrow> (string \<times> bool) list" where
  "search_order Topics = [(''priority'', True)]"
| "search_order Categories = [(''name'', False)]"
| "search_order Events = [(''date'', True)]"
| "search_order Notes = [(''created_at'', True)]"


definition matching :: "env \<Rightarrow> kind \<Rightarrow> string \<Rightarrow> world \<Rightarrow> json list" where
  "matching e k q w = sort_docs (search_order k) (filter (search_match e k q) (docs w k))"

text \<open>A store with three topics, one category and two notes.\<close>

definition topic_ai :: json where
  "topic_ai = JObj [(''id'', JStr ''t1''), (''name'', JStr ''AI''), (''priority'', JNum 1)]"

definition topic_brain :: json where
  "topic_brain = JObj [(''id'', JStr ''t2''), (''name'', JStr ''Brain''),
                       (''description'', JStr ''Minds and ai''), (''priority'', JNum 5)]"

definition topic_go :: json where
  "topic_go = JObj [(''id'', JStr ''t3''), (''name'', JStr ''Go''), (''priority'', JNum 9)]"

definition category_tech :: json where
  "category_tech = JObj [(''id'', JStr ''c1''), (''name'', JStr ''Tech''), (''priority'', JNum 2)]"

definition note_ai :: json where
  "note_ai = JObj [(''id'', JStr ''n1''), (''content'', JStr ''On AI''),
                   (''is_archived'', JBool False), (''created_at'', JDate 10)]"

definition note_old :: json where
  "note_old = JObj [(''id'', JStr ''n2''), (''content'', JStr ''ai, long ago''),
                    (''is_archived'', JBool True), (''created_at'', JDate 5)]"

fun seeded_docs :: "kind \<Rightarrow> json list" where
  "seeded_docs Topics = [topic_ai, topic_brain, topic_go]"
| "seeded_docs Categories = [category_tech]"
| "seeded_docs Events = []"
| "seeded_docs Notes = [note_ai, note_old]"

definition seeded_world :: world where
  "seeded_world = \<lparr>docs = seeded_docs, ops = 0, clock = 0, uuids = 0, oids = 0\<rparr>"

text \<open>
  What an update of kind \<open>k\<close> with the validated value \<open>v\<close> writes: the value itself, and for
  a note the value with \<open>updated_at\<close> set to the time of the call.
\<close>

definition update_data :: "env \<Rightarrow> kind \<Rightarrow> json \<Rightarrow> world \<Rightarrow> json" where
  "update_data e k v w =
     (case k of Notes \<Rightarrow> assign ''updated_at'' (JDate (time e (clock w))) v | _ \<Rightarrow> v)"





section \<open>Unfolding the definitions on a concrete run\<close>

lemmas io_defs = ret_def throw_def bind_def store_call_def model_call_def Let_def
lemmas sample_defs = all_models_def sample_env_def empty_world_def sample_rule_def
  sample_string_def sample_number_def wrong_type_def


section \<open>Shared facts about the store and the model calls\<close>

lemma store_call_docs:
  assumes "\<And>w r w'. body w = (r, w') \<Longrightarrow> docs w' = docs w"
  shows "store_call e body w = (r, w') \<Longrightarrow> docs w' = docs w"
  using assms[of "w\<lparr>ops := Suc (ops w)\<rparr>" r w']
  by (auto simp: store_call_def Let_def split: option.splits)

lemma search_sorted_docs:
  "search_sorted e k q P s skip limit w = (r, w') \<Longrightarrow> docs w' = docs w"
  unfolding search_sorted_def
  by (erule store_call_docs[rotated]) (auto split: if_splits)

lemma model_search_docs: "model_search e k q limit skip w = (r, w') \<Longrightarrow> docs w' = docs w"
  by (cases k) (auto simp: Topic_search_def Category_search_def Event_search_def Note_search_def
      dest: search_sorted_docs)

lemma model_call_Inr:
  "model_call h k m act w = (Inr x, w') \<Longrightarrow> act w = (Inr x, w')"
  by (auto simp: model_call_def throw_def split: handle.splits if_splits)

lemma kind_key_inj: "kind_key k = kind_key k' \<Longrightarrow> k = k'"
  by (cases k; cases k'; simp)

lemma kind_key_not_query: "kind_key k \<noteq> ''query''"
  by (cases k; simp)

lemma selected_keys_distinct:
  "distinct ks \<Longrightarrow> distinct [kind_key k. k \<leftarrow> ks, kind_key k \<in> set ts]"
  by (induction ks) (auto dest: kind_key_inj)

lemma selected_keys_subset:
  "set [kind_key k. k \<leftarrow> ks, kind_key k \<in> set ts] \<subseteq> kind_key ` set ks"
  by (induction ks) auto

lemma keys_from_Nil: "keys_from param body []"
  by (simp add: keys_from_def)

lemma keys_from_snoc:
  "keys_from param body obj \<Longrightarrow> field body (param k) = Some (JArr (item # items)) \<Longrightarrow>
   keys_from param body (obj @ [(kind_key k, xs)])"
  by (auto simp: keys_from_def)

lemma keys_from_prune: "keys_from param body obj \<Longrightarrow> keys_from param body (prune obj)"
  by (auto simp: keys_from_def prune_def)

lemma prune_nonempty: "(key, xs) \<in> set (prune obj) \<Longrightarrow> xs \<noteq> []"
  by (auto simp: prune_def)

lemma upsert_kind_keys:
  assumes "upsert_kind h e body k (r, w) = (r', w')"
    and "keys_from kind_key body (created r)" "keys_from kind_key body (updated r)"
        "keys_from kind_key body (errors r)"
  shows "keys_from kind_key body (created r') \<and> keys_from kind_key body (updated r')
         \<and> keys_from kind_key body (errors r')"
proof (cases "\<exists>item items. field body (kind_key k) = Some (JArr (item # items))")
  case True
  then obtain item items where f: "field body (kind_key k) = Some (JArr (item # items))" by blast
  obtain c u er w1 where l: "upsert_loop h e k (item # items) ([], [], []) w = ((c, u, er), w1)"
    by (metis prod_cases3 surj_pair)
  from assms(1) f l have "r' = r\<lparr>created := created r @ [(kind_key k, c)],
                     updated := updated r @ [(kind_key k, u)],
                     errors := errors r @ [(kind_key k, er)]\<rparr>"
    by (simp add: upsert_kind_def)
  with assms(2-4) f show ?thesis by (simp add: keys_from_snoc)
next
  case False
  with assms(1) have "r' = r"
    by (auto simp: upsert_kind_def split: option.splits json.splits list.splits)
  with assms show ?thesis by simp
qed

lemma upsert_fold_keys:
  "fold (upsert_kind h e body) ks (r, w) = (r', w') \<Longrightarrow>
   keys_from kind_key body (created r) \<Longrightarrow> keys_from kind_key body (updated r) \<Longrightarrow>
   keys_from kind_key body (errors r) \<Longrightarrow>
   keys_from kind_key body (created r') \<and> keys_from kind_key body (updated r')
     \<and> keys_from kind_key body (errors r')"
proof (induction ks arbitrary: r w)
  case Nil
  then show ?case by simp
next
  case (Cons k ks)
  obtain r1 w1 where s: "upsert_kind h e body k (r, w) = (r1, w1)" by (cases "upsert_kind h e body k (r, w)")
  from upsert_kind_keys[OF s Cons.prems(2-4)] Cons.IH[of r1 w1] Cons.prems(1) s
  show ?case by simp
qed

text \<open>
  C5. In every response of \<open>createOrUpdateEntities\<close>, each key under \<open>created\<close>, \<open>updated\<close> and
  \<open>errors\<close> is the key of a kind whose list in the request body is a non-empty array, and
  the array stored under the key is not empty.
\<close>

theorem upsert_response_pruned:
  assumes "createOrUpdateEntities h e body w = (Respond st r, w')"
  shows "\<forall>(key, xs) \<in> set (created r) \<union> set (updated r) \<union> set (errors r).
           xs \<noteq> [] \<and> (\<exists>k item items. key = kind_key k
                          \<and> field body key = Some (JArr (item # items)))"
proof -
  obtain r0 w0 where f: "fold (upsert_kind h e body) [Topics, Categories, Events, Notes]
      (\<lparr>success = True, errors = [], created = [], updated = []\<rparr>, w) = (r0, w0)"
    by (cases "fold (upsert_kind h e body) [Topics, Categories, Events, Notes]
      (\<lparr>success = True, errors = [], created = [], updated = []\<rparr>, w)")
  from assms f have r: "created r = prune (created r0)" "updated r = prune (updated r0)"
      "errors r = prune (errors r0)"
    by (auto simp: createOrUpdateEntities_def Let_def split: handle.splits if_splits)
  from upsert_fold_keys[OF f] have
    "keys_from kind_key body (created r0)" "keys_from kind_key body (updated r0)"
    "keys_from kind_key body (errors r0)"
    by (simp_all add: keys_from_Nil)
  then have k: "keys_from kind_key body (created r)" "keys_from kind_key body (updated r)"
    "keys_from kind_key body (errors r)"
    unfolding r by (simp_all add: keys_from_prune)
  show ?thesis
  proof (clarify)
    fix key xs assume m: "(key, xs) \<in> set (created r) \<union> set (updated r) \<union> set (errors r)"
    then have ne: "xs \<noteq> []" unfolding r by (auto dest: prune_nonempty)
    from m k have "\<exists>k item items. key = kind_key k
                          \<and> field body (kind_key k) = Some (JArr (item # items))"
      unfolding keys_from_def by blast
    then have "\<exists>k item items. key = kind_key k
                          \<and> field body key = Some (JArr (item # items))" by auto
    with ne show "xs \<noteq> [] \<and> (\<exists>k item items. key = kind_key k
                          \<and> field body key = Some (JArr (item # items)))" by simp
  qed
qed

lemmas validator_defs = validateTopic_def validateCategory_def validateEvent_def validateNote_def
  topic_schema_def category_schema_def event_schema_def note_schema_def subcategorySchema_def
  timelineItemSchema_def validReferenceTypes_def schema_validate_def as_object_def
  dquote_def squote_def trim_def is_space_def

lemmas model_defs = Topic_create_def Category_create_def Event_create_def Note_create_def
  Topic_update_def Category_update_def Event_update_def Note_update_def findById_def
  delete_by_id_def generate_id_def insert_and_return_def insertOne_def findOne_def
  updateOne_def deleteOne_def new_Date_def new_uuid_def new_ObjectId_def id_matches_def
  eq_match_def set_fields_def or_default_def to_text_def

lemmas upsert_defs = createOrUpdateEntities_def upsert_kind_def upsert_item_def
  upsert_attempt_def update_entity_def create_entity_def to_create_def default_from_def
  error_entry_def prune_def

lemma run_A: "createOrUpdateEntities all_models sample_env scenario_A empty_world =
  (Respond 207
    \<lparr>success = False,
     errors = [(''categories'',
         [JObj [(''data'', JObj [(''invalid'', JStr ''x'')]),
                (''error'', JStr (''Validation error: '' @ dquote ''name'' @ '' is required''))]])],
     created = [(''topics'',
         [JObj [(''name'', JStr ''AI''), (''id'', JStr ''u''),
            (''unread_count'', JNum 0), (''priority'', JNum 0),
            (''_id'', JOid 0)]])],
     updated = []\<rparr>,
   \<lparr>docs = (\<lambda>k. [])(Topics := [JObj [(''name'', JStr ''AI''), (''id'', JStr ''u''),
            (''unread_count'', JNum 0), (''priority'', JNum 0),
            (''_id'', JOid 0)]]), ops = 1, clock = 0, uuids = 1, oids = 1\<rparr>)"
  by (simp add: scenario_A_def upsert_defs validator_defs model_defs io_defs sample_defs)






lemma upsert_item_created:
  assumes "upsert_item h e k item w = (Created d, w')"
  shows "\<exists>v. validate e k item (truthy_opt (field item ''id'')) = Inr v
           \<and> \<not> truthy_opt (field v ''id'')"
proof -
  from assms obtain v where v: "validate e k item (truthy_opt (field item ''id'')) = Inr v"
    and a: "item \<noteq> JNull"
    unfolding upsert_item_def upsert_attempt_def
    by (auto simp: ret_def throw_def split: if_splits sum.splits prod.splits)
  have "\<not> truthy_opt (field v ''id'')"
  proof
    assume "truthy_opt (field v ''id'')"
    then obtain vid where vid: "field v ''id'' = Some vid" "truthy vid"
      by (cases "field v ''id''") auto
    with assms v a have "update_entity h e k item v vid w = (Inr (Created d), w')"
      unfolding upsert_item_def upsert_attempt_def
      by (auto simp: split: sum.splits prod.splits)
    then show False
      unfolding update_entity_def
      by (auto simp: ret_def bind_def split: sum.splits prod.splits option.splits if_splits)
  qed
  with v show ?thesis by blast
qed





lemma entries_all: "distinct (map fst obj) \<Longrightarrow> entries obj k = all_entries obj (kind_key k)"
proof (induction obj)
  case Nil
  then show ?case by (simp add: entries_def all_entries_def)
next
  case (Cons a obj)
  obtain key xs where a: "a = (key, xs)" by (cases a)
  show ?case
  proof (cases "key = kind_key k")
    case True
    with Cons.prems a have "kind_key k \<notin> fst ` set obj" by auto
    then have "filter (\<lambda>(key', xs). key' = kind_key k) obj = []"
      by (force simp: filter_empty_conv)
    with True a show ?thesis by (simp add: entries_def all_entries_def)
  next
    case False
    with Cons a show ?thesis by (simp add: entries_def all_entries_def)
  qed
qed

lemma all_entries_prune: "all_entries (prune obj) key = all_entries obj key"
  by (induction obj) (auto simp: all_entries_def prune_def)

lemma all_entries_snoc:
  "all_entries (obj @ [(key', xs)]) key = all_entries obj key @ (if key' = key then xs else [])"
  by (simp add: all_entries_def)

lemma distinct_prune: "distinct (map fst obj) \<Longrightarrow> distinct (map fst (prune obj))"
  by (simp add: prune_def distinct_map_filter)

lemma upsert_loop_trace:
  "upsert_loop h e k items (c, u, er) w = ((c', u', er'), w') \<Longrightarrow>
   \<exists>outs. length outs = length items
     \<and> (\<forall>i<length items. \<exists>w1 w2. upsert_item h e k (items ! i) w1 = (outs ! i, w2))
     \<and> c' = c @ created_of outs \<and> u' = u @ updated_of outs \<and> er' = er @ failed_of outs"
proof (induction items arbitrary: c u er w)
  case Nil
  then show ?case by simp
next
  case (Cons item items)
  obtain out w1 where o: "upsert_item h e k item w = (out, w1)" by (cases "upsert_item h e k item w")
  define c1 where "c1 = c @ created_of [out]"
  define u1 where "u1 = u @ updated_of [out]"
  define er1 where "er1 = er @ failed_of [out]"
  from Cons.prems o have "upsert_loop h e k items (c1, u1, er1) w1 = ((c', u', er'), w')"
    by (cases out) (simp_all add: c1_def u1_def er1_def)
  from Cons.IH[OF this] obtain outs where
    l: "length outs = length items"
    and t: "\<forall>i<length items. \<exists>w1 w2. upsert_item h e k (items ! i) w1 = (outs ! i, w2)"
    and r: "c' = c1 @ created_of outs" "u' = u1 @ updated_of outs" "er' = er1 @ failed_of outs"
    by blast
  have t': "\<forall>i<length (item # items). \<exists>w1 w2.
      upsert_item h e k ((item # items) ! i) w1 = ((out # outs) ! i, w2)"
  proof (intro allI impI)
    fix i assume "i < length (item # items)"
    then show "\<exists>w1 w2. upsert_item h e k ((item # items) ! i) w1 = ((out # outs) ! i, w2)"
      using o t by (cases i) auto
  qed
  have r': "c' = c @ created_of (out # outs)" "u' = u @ updated_of (out # outs)"
    "er' = er @ failed_of (out # outs)"
    using r by (cases out; simp add: c1_def u1_def er1_def)+
  have l': "length (out # outs) = length (item # items)" using l by simp
  show ?case
    by (rule exI[of _ "out # outs"], rule conjI[OF l' conjI[OF t' conjI[OF r'(1) conjI[OF r'(2) r'(3)]]]])
qed

lemma upsert_kind_step:
  assumes "upsert_kind h e body k (r, w) = (r', w')"
  shows "(\<exists>item items c u er.
            field body (kind_key k) = Some (JArr (item # items))
            \<and> upsert_loop h e k (item # items) ([], [], []) w = ((c, u, er), w')
            \<and> created r' = created r @ [(kind_key k, c)]
            \<and> updated r' = updated r @ [(kind_key k, u)]
            \<and> errors r' = errors r @ [(kind_key k, er)])
         \<or> ((\<forall>item items. field body (kind_key k) \<noteq> Some (JArr (item # items)))
            \<and> r' = r \<and> w' = w)"
proof (cases "\<exists>item items. field body (kind_key k) = Some (JArr (item # items))")
  case True
  then obtain item items where f: "field body (kind_key k) = Some (JArr (item # items))" by blast
  obtain c u er w1 where l: "upsert_loop h e k (item # items) ([], [], []) w = ((c, u, er), w1)"
    by (metis prod_cases3 surj_pair)
  from assms f l have "r' = r\<lparr>created := created r @ [(kind_key k, c)],
                     updated := updated r @ [(kind_key k, u)],
                     errors := errors r @ [(kind_key k, er)]\<rparr>" "w' = w1"
    by (simp_all add: upsert_kind_def)
  with f l show ?thesis by auto
next
  case False
  with assms have "r' = r \<and> w' = w"
    by (auto simp: upsert_kind_def split: option.splits json.splits list.splits)
  with False show ?thesis by blast
qed

lemma upsert_fold_other:
  "fold (upsert_kind h e body) ks (r, w) = (r', w') \<Longrightarrow> k \<notin> set ks \<Longrightarrow>
   all_entries (created r') (kind_key k) = all_entries (created r) (kind_key k)
   \<and> all_entries (updated r') (kind_key k) = all_entries (updated r) (kind_key k)
   \<and> all_entries (errors r') (kind_key k) = all_entries (errors r) (kind_key k)"
proof (induction ks arbitrary: r w)
  case Nil
  then show ?case by simp
next
  case (Cons k' ks)
  obtain r1 w1 where s: "upsert_kind h e body k' (r, w) = (r1, w1)"
    by (cases "upsert_kind h e body k' (r, w)")
  from Cons.prems have ne: "kind_key k' \<noteq> kind_key k" by (auto dest: kind_key_inj)
  from upsert_kind_step[OF s] ne have
    "all_entries (created r1) (kind_key k) = all_entries (created r) (kind_key k)
   \<and> all_entries (updated r1) (kind_key k) = all_entries (updated r) (kind_key k)
   \<and> all_entries (errors r1) (kind_key k) = all_entries (errors r) (kind_key k)"
    by (auto simp: all_entries_snoc)
  moreover from Cons.prems s have "fold (upsert_kind h e body) ks (r1, w1) = (r', w')" by simp
  ultimately show ?case using Cons.IH[of r1 w1] Cons.prems(2) by simp
qed

lemma upsert_fold_this:
  "fold (upsert_kind h e body) ks (r, w) = (r', w') \<Longrightarrow> distinct ks \<Longrightarrow> k \<in> set ks \<Longrightarrow>
   field body (kind_key k) = Some (JArr items) \<Longrightarrow>
   \<exists>outs. length outs = length items
     \<and> (\<forall>i<length items. \<exists>w1 w2. upsert_item h e k (items ! i) w1 = (outs ! i, w2))
     \<and> all_entries (created r') (kind_key k) = all_entries (created r) (kind_key k) @ created_of outs
     \<and> all_entries (updated r') (kind_key k) = all_entries (updated r) (kind_key k) @ updated_of outs
     \<and> all_entries (errors r') (kind_key k) = all_entries (errors r) (kind_key k) @ failed_of outs"
proof (induction ks arbitrary: r w)
  case Nil
  then show ?case by simp
next
  case (Cons k' ks)
  obtain r1 w1 where s: "upsert_kind h e body k' (r, w) = (r1, w1)"
    by (cases "upsert_kind h e body k' (r, w)")
  from Cons.prems s have rest: "fold (upsert_kind h e body) ks (r1, w1) = (r', w')" by simp
  show ?case
  proof (cases "k' = k")
    case False
    then have ne: "kind_key k' \<noteq> kind_key k" by (auto dest: kind_key_inj)
    from upsert_kind_step[OF s] ne have
      "all_entries (created r1) (kind_key k) = all_entries (created r) (kind_key k)"
      "all_entries (updated r1) (kind_key k) = all_entries (updated r) (kind_key k)"
      "all_entries (errors r1) (kind_key k) = all_entries (errors r) (kind_key k)"
      by (auto simp: all_entries_snoc)
    with Cons.IH[OF rest] Cons.prems False show ?thesis by simp
  next
    case True
    with Cons.prems have nk: "k \<notin> set ks" by simp
    note same = upsert_fold_other[OF rest nk]
    show ?thesis
    proof (cases items)
      case Nil
      with upsert_kind_step[OF s] True Cons.prems(4) have "r1 = r" by auto
      with same Nil show ?thesis by simp
    next
      case (Cons item items')
      with upsert_kind_step[OF s] True Cons.prems(4) obtain c u er where
        l: "upsert_loop h e k items ([], [], []) w = ((c, u, er), w1)"
        and r1: "created r1 = created r @ [(kind_key k, c)]"
                "updated r1 = updated r @ [(kind_key k, u)]"
                "errors r1 = errors r @ [(kind_key k, er)]"
        by auto
      from upsert_loop_trace[OF l] obtain outs where
        o: "length outs = length items"
           "\<forall>i<length items. \<exists>w1 w2. upsert_item h e k (items ! i) w1 = (outs ! i, w2)"
           "c = created_of outs" "u = updated_of outs" "er = failed_of outs"
        by auto
      have "all_entries (created r') (kind_key k) = all_entries (created r) (kind_key k) @ created_of outs"
           "all_entries (updated r') (kind_key k) = all_entries (updated r) (kind_key k) @ updated_of outs"
           "all_entries (errors r') (kind_key k) = all_entries (errors r) (kind_key k) @ failed_of outs"
        using same r1 o(3-5) by (simp_all add: all_entries_snoc)
      with o(1,2) show ?thesis by blast
    qed
  qed
qed

lemma upsert_kind_key_step:
  assumes "upsert_kind h e body k (r, w) = (r', w')"
  shows "\<exists>ks. (ks = [] \<or> ks = [kind_key k])
           \<and> map fst (created r') = map fst (created r) @ ks
           \<and> map fst (updated r') = map fst (updated r) @ ks
           \<and> map fst (errors r') = map fst (errors r) @ ks"
  using upsert_kind_step[OF assms] by auto

lemma upsert_fold_distinct:
  "fold (upsert_kind h e body) ks (r, w) = (r', w') \<Longrightarrow> distinct ks \<Longrightarrow>
   distinct (map fst (created r)) \<and> distinct (map fst (updated r)) \<and> distinct (map fst (errors r)) \<Longrightarrow>
   (set (map fst (created r)) \<union> set (map fst (updated r)) \<union> set (map fst (errors r)))
      \<inter> kind_key ` set ks = {} \<Longrightarrow>
   distinct (map fst (created r')) \<and> distinct (map fst (updated r')) \<and> distinct (map fst (errors r'))"
proof (induction ks arbitrary: r w)
  case Nil
  then show ?case by simp
next
  case (Cons k' ks)
  obtain r1 w1 where s: "upsert_kind h e body k' (r, w) = (r1, w1)"
    by (cases "upsert_kind h e body k' (r, w)")
  from Cons.prems s have rest: "fold (upsert_kind h e body) ks (r1, w1) = (r', w')" by simp
  from Cons.prems(2) have inj: "kind_key k' \<notin> kind_key ` set ks" by (auto dest: kind_key_inj)
  from upsert_kind_key_step[OF s] obtain xs where
    xs: "xs = [] \<or> xs = [kind_key k']"
        "map fst (created r1) = map fst (created r) @ xs"
        "map fst (updated r1) = map fst (updated r) @ xs"
        "map fst (errors r1) = map fst (errors r) @ xs" by blast
  have d1: "distinct (map fst (created r1)) \<and> distinct (map fst (updated r1)) \<and> distinct (map fst (errors r1))"
    unfolding xs(2-4) using xs(1) Cons.prems(3,4) by (auto simp: rev_image_eqI)
  have d2: "(set (map fst (created r1)) \<union> set (map fst (updated r1)) \<union> set (map fst (errors r1)))
      \<inter> kind_key ` set ks = {}"
    unfolding xs(2-4) using xs(1) Cons.prems(4) inj by (auto simp: rev_image_eqI)
  from Cons.IH[OF rest _ d1 d2] Cons.prems(2) show ?case by simp
qed

lemma upsert_entries:
  assumes run: "createOrUpdateEntities h e body w = (Respond st r, w')"
      and items: "field body (kind_key k) = Some (JArr items)"
  shows "\<exists>outs. length outs = length items
          \<and> (\<forall>i<length items. outcome_of_item h e k (items ! i) (outs ! i))
          \<and> entries (created r) k = created_of outs
          \<and> entries (updated r) k = updated_of outs
          \<and> entries (errors r) k = failed_of outs"
proof -
  let ?ks = "[Topics, Categories, Events, Notes]"
  let ?r0 = "\<lparr>success = True, errors = [], created = [], updated = []\<rparr>"
  obtain r1 w1 where f: "fold (upsert_kind h e body) ?ks (?r0, w) = (r1, w1)"
    by (cases "fold (upsert_kind h e body) ?ks (?r0, w)")
  from run f have r: "created r = prune (created r1)" "updated r = prune (updated r1)"
      "errors r = prune (errors r1)"
    by (auto simp: createOrUpdateEntities_def Let_def split: handle.splits if_splits)
  have dk: "distinct ?ks" by simp
  have mem: "k \<in> set ?ks" by (cases k) simp_all
  from upsert_fold_distinct[OF f dk] have
    d: "distinct (map fst (created r1))" "distinct (map fst (updated r1))"
       "distinct (map fst (errors r1))" by simp_all
  from upsert_fold_this[OF f dk mem items] obtain outs where
    o: "length outs = length items"
       "\<forall>i<length items. \<exists>w1 w2. upsert_item h e k (items ! i) w1 = (outs ! i, w2)"
       "all_entries (created r1) (kind_key k) = created_of outs"
       "all_entries (updated r1) (kind_key k) = updated_of outs"
       "all_entries (errors r1) (kind_key k) = failed_of outs"
    by (auto simp: all_entries_def)
  have "entries (created r) k = created_of outs" "entries (updated r) k = updated_of outs"
       "entries (errors r) k = failed_of outs"
    unfolding r using d o(3-5)
    by (simp_all add: entries_all distinct_prune all_entries_prune)
  with o(1,2) show ?thesis unfolding outcome_of_item_def by blast
qed





theorem upsert_response_pruned_witness:
  "\<exists>r w'. createOrUpdateEntities all_models sample_env scenario_A empty_world = (Respond 207 r, w')
      \<and> map fst (created r) = [''topics''] \<and> updated r = [] \<and> map fst (errors r) = [''categories'']
      \<and> [] \<notin> snd ` (set (created r) \<union> set (updated r) \<union> set (errors r))
      \<and> field scenario_A ''events'' = None \<and> field scenario_A ''notes'' = None"
proof -
  let ?doc = "JObj [(''name'', JStr ''AI''), (''id'', JStr ''u''), (''unread_count'', JNum 0),
                    (''priority'', JNum 0), (''_id'', JOid 0)]"
  let ?err = "JObj [(''data'', JObj [(''invalid'', JStr ''x'')]),
                (''error'', JStr (''Validation error: '' @ dquote ''name'' @ '' is required''))]"
  let ?r = "\<lparr>success = False, errors = [(''categories'', [?err])],
            created = [(''topics'', [?doc])], updated = []\<rparr>"
  let ?w = "\<lparr>docs = (\<lambda>k. [])(Topics := [?doc]), ops = 1, clock = 0, uuids = 1, oids = 1\<rparr>"
  have run: "createOrUpdateEntities all_models sample_env scenario_A empty_world = (Respond 207 ?r, ?w)"
    by (rule run_A)
  from upsert_response_pruned[OF run]
  have ne: "[] \<notin> snd ` (set (created ?r) \<union> set (updated ?r) \<union> set (errors ?r))"
    by fastforce
  show ?thesis
  proof (rule exI[of _ ?r], rule exI[of _ ?w], intro conjI)
    show "createOrUpdateEntities all_models sample_env scenario_A empty_world = (Respond 207 ?r, ?w)"
      by (rule run)
    show "[] \<notin> snd ` (set (created ?r) \<union> set (updated ?r) \<union> set (errors ?r))" by (rule ne)
  qed (simp_all add: scenario_A_def)
qed

lemma map_of_put: "map_of (put k v kvs) k' = (if k' = k then Some v else map_of kvs k')"
  by (induction kvs) auto

lemma field_assign:
  "field (assign k v (JObj kvs)) k' = (if k' = k then Some v else field (JObj kvs) k')"
  by (simp add: map_of_put)

lemma assign_JObj: "\<exists>kvs'. assign k v (JObj kvs) = JObj kvs'"
  by simp

lemma strip_and_convert_absent:
  "map_of kvs f = None \<Longrightarrow> map_of (strip_and_convert e sch kvs) f = None"
  by (induction kvs) (auto split: option.splits if_splits)

lemma validate_object:
  assumes "validate e k (JObj kvs) u = Inr v"
  shows "\<exists>kvs'. v = JObj kvs' \<and> (\<forall>f. map_of kvs f = None \<longrightarrow> map_of kvs' f = None)"
proof -
  have "\<And>sch. schema_validate e sch (JObj kvs) = Inr v \<Longrightarrow> v = JObj (strip_and_convert e sch kvs)"
    by (auto simp: schema_validate_def as_object_def split: list.splits)
  with assms have "\<exists>sch. v = JObj (strip_and_convert e sch kvs)"
    by (cases k) (auto simp: validateTopic_def validateCategory_def validateEvent_def validateNote_def)
  then show ?thesis using strip_and_convert_absent by blast
qed

lemma created_of_nth: "d \<in> set (created_of outs) \<Longrightarrow> \<exists>i<length outs. outs ! i = Created d"
proof (induction outs)
  case Nil
  then show ?case by simp
next
  case (Cons out outs)
  show ?case
  proof (cases "out = Created d")
    case True
    then have "0 < length (out # outs) \<and> (out # outs) ! 0 = Created d" by simp
    then show ?thesis by blast
  next
    case False
    with Cons.prems have "d \<in> set (created_of outs)" by (cases out) auto
    from Cons.IH[OF this] obtain i where "i < length outs" "outs ! i = Created d" by blast
    then have "Suc i < length (out # outs) \<and> (out # outs) ! Suc i = Created d" by simp
    then show ?thesis by blast
  qed
qed

lemma truthy_opt_Some: "truthy_opt x \<Longrightarrow> x \<noteq> None"
  by (cases x) auto

lemma bind_InrE:
  assumes "bind m f w = (Inr y, w')"
  obtains x w1 where "m w = (Inr x, w1)" "f x w1 = (Inr y, w')"
  using assms by (auto simp: bind_def split: prod.splits sum.splits)

lemma to_create_plain:
  assumes "to_create e k (JObj kvs) w = (Inr d, w1)" "k \<noteq> Notes"
  shows "\<exists>kvs'. d = JObj kvs'
     \<and> (map_of kvs ''unread_count'' = None \<longrightarrow> map_of kvs' ''unread_count'' = Some (JNum 0))
     \<and> (map_of kvs ''priority'' = None \<longrightarrow> map_of kvs' ''priority'' = Some (JNum 0))"
  using assms
  by (cases k)
     (auto simp: to_create_def default_from_def bind_def ret_def new_uuid_def or_default_def
        map_of_put Let_def split: if_splits option.splits)

lemma default_from_uuid:
  assumes "default_from ''id'' (new_uuid e) (JObj kvs) w = (Inr d, w1)"
  shows "\<exists>kvs'. d = JObj kvs' \<and> (\<forall>g. g \<noteq> ''id'' \<longrightarrow> map_of kvs' g = map_of kvs g)
           \<and> clock w1 = clock w"
  using assms
  by (auto simp: default_from_def bind_def ret_def new_uuid_def map_of_put split: if_splits)

lemma default_from_date:
  assumes "default_from f (new_Date e) (JObj kvs) w = (Inr d, w1)"
  shows "\<exists>kvs'. d = JObj kvs' \<and> (\<forall>g. g \<noteq> f \<longrightarrow> map_of kvs' g = map_of kvs g)
           \<and> truthy_opt (map_of kvs' f) \<and> clock w \<le> clock w1
           \<and> (map_of kvs f = None \<longrightarrow>
                map_of kvs' f = Some (JDate (time e (clock w))) \<and> clock w1 = Suc (clock w))"
  using assms
  by (auto simp: default_from_def bind_def ret_def new_Date_def map_of_put
      dest: truthy_opt_Some split: if_splits)

lemma to_create_note:
  assumes "to_create e Notes (JObj kvs) w = (Inr d, w1)"
  shows "\<exists>kvs'. d = JObj kvs'
     \<and> (map_of kvs ''created_at'' = None \<longrightarrow>
          (\<exists>n. clock w \<le> n \<and> n < clock w1 \<and> map_of kvs' ''created_at'' = Some (JDate (time e n))))
     \<and> (map_of kvs ''updated_at'' = None \<longrightarrow>
          (\<exists>n. clock w \<le> n \<and> n < clock w1 \<and> map_of kvs' ''updated_at'' = Some (JDate (time e n))))
     \<and> (map_of kvs ''is_archived'' = None \<longrightarrow> map_of kvs' ''is_archived'' = Some (JBool False))
     \<and> truthy_opt (map_of kvs' ''created_at'') \<and> truthy_opt (map_of kvs' ''updated_at'')
     \<and> map_of kvs' ''priority'' = map_of kvs ''priority''
     \<and> map_of kvs' ''unread_count'' = map_of kvs ''unread_count''"
proof -
  from assms have "bind (default_from ''id'' (new_uuid e) (JObj kvs)) (\<lambda>d0.
           bind (default_from ''created_at'' (new_Date e) d0) (\<lambda>d1.
           bind (default_from ''updated_at'' (new_Date e) d1) (\<lambda>d2.
           ret (assign ''is_archived'' (or_default d2 ''is_archived'' (JBool False)) d2)))) w
         = (Inr d, w1)"
    by (simp add: to_create_def)
  then obtain d0 w0 where
    s0: "default_from ''id'' (new_uuid e) (JObj kvs) w = (Inr d0, w0)"
    and r0: "bind (default_from ''created_at'' (new_Date e) d0) (\<lambda>d1.
           bind (default_from ''updated_at'' (new_Date e) d1) (\<lambda>d2.
           ret (assign ''is_archived'' (or_default d2 ''is_archived'' (JBool False)) d2))) w0
         = (Inr d, w1)"
    by (rule bind_InrE)
  from r0 obtain d1 w1' where
    s1: "default_from ''created_at'' (new_Date e) d0 w0 = (Inr d1, w1')"
    and r1: "bind (default_from ''updated_at'' (new_Date e) d1) (\<lambda>d2.
           ret (assign ''is_archived'' (or_default d2 ''is_archived'' (JBool False)) d2)) w1'
         = (Inr d, w1)"
    by (rule bind_InrE)
  from r1 obtain d2 w2 where
    s2': "default_from ''updated_at'' (new_Date e) d1 w1' = (Inr d2, w2)"
    and r2: "ret (assign ''is_archived'' (or_default d2 ''is_archived'' (JBool False)) d2) w2
         = (Inr d, w1)"
    by (rule bind_InrE)
  from r2 have d: "d = assign ''is_archived'' (or_default d2 ''is_archived'' (JBool False)) d2"
    and "w2 = w1" by (simp_all add: ret_def)
  with s2' have s2: "default_from ''updated_at'' (new_Date e) d1 w1' = (Inr d2, w1)" by simp
  from default_from_uuid[OF s0] obtain k0 where
    k0: "d0 = JObj k0" "\<forall>g. g \<noteq> ''id'' \<longrightarrow> map_of k0 g = map_of kvs g" "clock w0 = clock w"
    by (elim exE conjE) (rule that; assumption)
  from default_from_date[OF s1[unfolded k0(1)]] obtain k1 where
    k1: "d1 = JObj k1" "\<forall>g. g \<noteq> ''created_at'' \<longrightarrow> map_of k1 g = map_of k0 g"
        "truthy_opt (map_of k1 ''created_at'')" "clock w0 \<le> clock w1'"
        "map_of k0 ''created_at'' = None \<longrightarrow>
                map_of k1 ''created_at'' = Some (JDate (time e (clock w0))) \<and> clock w1' = Suc (clock w0)"
    by (elim exE conjE) (rule that; assumption)
  from default_from_date[OF s2[unfolded k1(1)]] obtain k2 where
    k2: "d2 = JObj k2" "\<forall>g. g \<noteq> ''updated_at'' \<longrightarrow> map_of k2 g = map_of k1 g"
        "truthy_opt (map_of k2 ''updated_at'')" "clock w1' \<le> clock w1"
        "map_of k1 ''updated_at'' = None \<longrightarrow>
                map_of k2 ''updated_at'' = Some (JDate (time e (clock w1'))) \<and> clock w1 = Suc (clock w1')"
    by (elim exE conjE) (rule that; assumption)
  let ?k3 = "put ''is_archived'' (or_default (JObj k2) ''is_archived'' (JBool False)) k2"
  have d3: "d = JObj ?k3" using d k2(1) by simp
  have m3: "\<And>g. g \<noteq> ''is_archived'' \<Longrightarrow> map_of ?k3 g = map_of k2 g" by (simp add: map_of_put)
  have c: "map_of kvs ''created_at'' = None \<longrightarrow>
          (\<exists>n. clock w \<le> n \<and> n < clock w1 \<and> map_of ?k3 ''created_at'' = Some (JDate (time e n)))"
  proof
    assume "map_of kvs ''created_at'' = None"
    with k0 k1 have "map_of k1 ''created_at'' = Some (JDate (time e (clock w)))"
      "clock w1' = Suc (clock w)" by simp_all
    with k2(2,4) m3 have "clock w \<le> clock w \<and> clock w < clock w1
        \<and> map_of ?k3 ''created_at'' = Some (JDate (time e (clock w)))" by simp
    then show "\<exists>n. clock w \<le> n \<and> n < clock w1 \<and> map_of ?k3 ''created_at'' = Some (JDate (time e n))"
      by blast
  qed
  have u: "map_of kvs ''updated_at'' = None \<longrightarrow>
          (\<exists>n. clock w \<le> n \<and> n < clock w1 \<and> map_of ?k3 ''updated_at'' = Some (JDate (time e n)))"
  proof
    assume "map_of kvs ''updated_at'' = None"
    with k0 k1 k2 have "map_of k2 ''updated_at'' = Some (JDate (time e (clock w1')))"
      "clock w1 = Suc (clock w1')" by simp_all
    with k0(3) k1(4) m3 have "clock w \<le> clock w1' \<and> clock w1' < clock w1
        \<and> map_of ?k3 ''updated_at'' = Some (JDate (time e (clock w1')))" by simp
    then show "\<exists>n. clock w \<le> n \<and> n < clock w1 \<and> map_of ?k3 ''updated_at'' = Some (JDate (time e n))"
      by blast
  qed
  have a: "map_of kvs ''is_archived'' = None \<longrightarrow> map_of ?k3 ''is_archived'' = Some (JBool False)"
    using k0 k1 k2 by (simp add: map_of_put or_default_def)
  have t: "truthy_opt (map_of ?k3 ''created_at'')" "truthy_opt (map_of ?k3 ''updated_at'')"
    using k1 k2 m3 by simp_all
  have p: "map_of ?k3 ''priority'' = map_of kvs ''priority''"
          "map_of ?k3 ''unread_count'' = map_of kvs ''unread_count''"
    using k0 k1 k2 m3 by simp_all
  show ?thesis
    by (rule exI[of _ ?k3], intro conjI d3 c u a t p)
qed

lemma generate_id_fields:
  assumes "generate_id e (JObj kvs) w = (Inr d, w1)"
  shows "\<exists>kvs'. d = JObj kvs' \<and> (\<forall>g. g \<noteq> ''id'' \<longrightarrow> map_of kvs' g = map_of kvs g)
           \<and> clock w1 = clock w"
  using assms
  by (auto simp: generate_id_def bind_def ret_def new_ObjectId_def map_of_put split: if_splits)

lemma insert_and_return_fields:
  assumes "insert_and_return e k (JObj kvs) w = (Inr r, w')"
  shows "\<exists>kvs'. r = Some (JObj kvs') \<and> JObj kvs' \<in> set (docs w' k)
           \<and> (\<forall>g. g \<noteq> ''_id'' \<longrightarrow> map_of kvs' g = map_of kvs g) \<and> clock w' = clock w"
  using assms
  by (auto simp: insert_and_return_def insertOne_def store_call_def bind_def ret_def
      new_ObjectId_def map_of_put Let_def split: if_splits option.splits)

lemma model_create_fields:
  assumes "model_create e k (JObj kvs) w = (Inr r, w')"
  shows "\<exists>kvs'. r = Some (JObj kvs') \<and> JObj kvs' \<in> set (docs w' k)
     \<and> clock w \<le> clock w'
     \<and> map_of kvs' ''priority'' = map_of kvs ''priority''
     \<and> map_of kvs' ''unread_count'' = map_of kvs ''unread_count''
     \<and> (k = Notes \<longrightarrow>
          (truthy_opt (map_of kvs ''created_at'') \<longrightarrow> map_of kvs' ''created_at'' = map_of kvs ''created_at'')
        \<and> (truthy_opt (map_of kvs ''updated_at'') \<longrightarrow> map_of kvs' ''updated_at'' = map_of kvs ''updated_at'')
        \<and> (map_of kvs ''is_archived'' = Some (JBool False) \<longrightarrow> map_of kvs' ''is_archived'' = Some (JBool False)))"
proof (cases k)
  case Topics
  with assms obtain d0 w0 where g: "generate_id e (JObj kvs) w = (Inr d0, w0)"
    and i: "insert_and_return e Topics d0 w0 = (Inr r, w')"
    by (auto simp: Topic_create_def elim: bind_InrE)
  from generate_id_fields[OF g] obtain k0 where
    k0: "d0 = JObj k0" "\<forall>g. g \<noteq> ''id'' \<longrightarrow> map_of k0 g = map_of kvs g" "clock w0 = clock w"
    by (elim exE conjE) (rule that; assumption)
  from insert_and_return_fields[OF i[unfolded k0(1)]] obtain k1 where
    k1: "r = Some (JObj k1)" "JObj k1 \<in> set (docs w' Topics)"
        "\<forall>g. g \<noteq> ''_id'' \<longrightarrow> map_of k1 g = map_of k0 g" "clock w' = clock w0"
    by (elim exE conjE) (rule that; assumption)
  show ?thesis
    by (rule exI[of _ k1]) (use Topics k0 k1 in simp)
next
  case Categories
  with assms obtain d0 w0 where g: "generate_id e (JObj kvs) w = (Inr d0, w0)"
    and i: "insert_and_return e Categories
         (if truthy_opt (field d0 ''subcategories'') then d0
          else assign ''subcategories'' (JArr []) d0) w0 = (Inr r, w')"
    by (auto simp: Category_create_def elim: bind_InrE)
  from generate_id_fields[OF g] obtain k0 where
    k0: "d0 = JObj k0" "\<forall>g. g \<noteq> ''id'' \<longrightarrow> map_of k0 g = map_of kvs g" "clock w0 = clock w"
    by (elim exE conjE) (rule that; assumption)
  let ?k0' = "if truthy_opt (map_of k0 ''subcategories'') then k0 else put ''subcategories'' (JArr []) k0"
  from i k0(1) have i': "insert_and_return e Categories (JObj ?k0') w0 = (Inr r, w')"
    by (simp split: if_splits)
  from insert_and_return_fields[OF i'] obtain k1 where
    k1: "r = Some (JObj k1)" "JObj k1 \<in> set (docs w' Categories)"
        "\<forall>g. g \<noteq> ''_id'' \<longrightarrow> map_of k1 g = map_of ?k0' g" "clock w' = clock w0"
    by (elim exE conjE) (rule that; assumption)
  show ?thesis
    by (rule exI[of _ k1]) (use Categories k0 k1 in \<open>simp add: map_of_put\<close>)
next
  case Events
  with assms obtain d0 w0 where g: "generate_id e (JObj kvs) w = (Inr d0, w0)"
    and i: "insert_and_return e Events
         (if truthy_opt (field d0 ''timeline'') then d0
          else assign ''timeline'' (JObj [(''events'', JArr [])]) d0) w0 = (Inr r, w')"
    by (auto simp: Event_create_def elim: bind_InrE)
  from generate_id_fields[OF g] obtain k0 where
    k0: "d0 = JObj k0" "\<forall>g. g \<noteq> ''id'' \<longrightarrow> map_of k0 g = map_of kvs g" "clock w0 = clock w"
    by (elim exE conjE) (rule that; assumption)
  let ?k0' = "if truthy_opt (map_of k0 ''timeline'') then k0
              else put ''timeline'' (JObj [(''events'', JArr [])]) k0"
  from i k0(1) have i': "insert_and_return e Events (JObj ?k0') w0 = (Inr r, w')"
    by (simp split: if_splits)
  from insert_and_return_fields[OF i'] obtain k1 where
    k1: "r = Some (JObj k1)" "JObj k1 \<in> set (docs w' Events)"
        "\<forall>g. g \<noteq> ''_id'' \<longrightarrow> map_of k1 g = map_of ?k0' g" "clock w' = clock w0"
    by (elim exE conjE) (rule that; assumption)
  show ?thesis
    by (rule exI[of _ k1]) (use Events k0 k1 in \<open>simp add: map_of_put\<close>)
next
  case Notes
  with assms obtain d0 w0 where g: "generate_id e (JObj kvs) w = (Inr d0, w0)"
    and rest: "bind (new_Date e) (\<lambda>now.
       let d1 = assign ''created_at'' (or_default d0 ''created_at'' now) d0;
           d2 = assign ''updated_at'' (or_default d1 ''updated_at'' now) d1;
           d3 = assign ''tags'' (or_default d2 ''tags'' (JArr [])) d2;
           d4 = assign ''metadata'' (or_default d3 ''metadata'' (JObj [])) d3;
           d5 = assign ''is_archived'' (or_default d4 ''is_archived'' (JBool False)) d4
       in insert_and_return e Notes d5) w0 = (Inr r, w')"
    by (auto simp: Note_create_def elim: bind_InrE)
  from generate_id_fields[OF g] obtain k0 where
    k0: "d0 = JObj k0" "\<forall>g. g \<noteq> ''id'' \<longrightarrow> map_of k0 g = map_of kvs g" "clock w0 = clock w"
    by (elim exE conjE) (rule that; assumption)
  define now where "now = JDate (time e (clock w0))"
  define c1 where "c1 = put ''created_at'' (or_default (JObj k0) ''created_at'' now) k0"
  define c2 where "c2 = put ''updated_at'' (or_default (JObj c1) ''updated_at'' now) c1"
  define c3 where "c3 = put ''tags'' (or_default (JObj c2) ''tags'' (JArr [])) c2"
  define c4 where "c4 = put ''metadata'' (or_default (JObj c3) ''metadata'' (JObj [])) c3"
  define c5 where "c5 = put ''is_archived'' (or_default (JObj c4) ''is_archived'' (JBool False)) c4"
  from rest k0(1) have i': "insert_and_return e Notes (JObj c5) (w0\<lparr>clock := Suc (clock w0)\<rparr>) = (Inr r, w')"
    by (simp add: bind_def new_Date_def Let_def c1_def c2_def c3_def c4_def c5_def now_def)
  from insert_and_return_fields[OF i'] obtain k1 where
    k1: "r = Some (JObj k1)" "JObj k1 \<in> set (docs w' Notes)"
        "\<forall>g. g \<noteq> ''_id'' \<longrightarrow> map_of k1 g = map_of c5 g"
        "clock w' = clock (w0\<lparr>clock := Suc (clock w0)\<rparr>)"
    by (elim exE conjE) (rule that; assumption)
  have f: "map_of c5 ''priority'' = map_of kvs ''priority''"
      "map_of c5 ''unread_count'' = map_of kvs ''unread_count''"
      "truthy_opt (map_of kvs ''created_at'') \<longrightarrow> map_of c5 ''created_at'' = map_of kvs ''created_at''"
      "truthy_opt (map_of kvs ''updated_at'') \<longrightarrow> map_of c5 ''updated_at'' = map_of kvs ''updated_at''"
      "map_of kvs ''is_archived'' = Some (JBool False) \<longrightarrow> map_of c5 ''is_archived'' = Some (JBool False)"
    using k0(2)
    by (auto simp: c1_def c2_def c3_def c4_def c5_def map_of_put or_default_def
        split: option.splits)
  show ?thesis
    by (rule exI[of _ k1]) (use Notes k0(3) k1 f in simp)
qed

lemma upsert_item_created_fields:
  assumes "upsert_item h e k (JObj payload) w = (Created d, w')"
  shows "d \<in> set (docs w' k)
      \<and> (k \<noteq> Notes \<longrightarrow>
           (map_of payload ''unread_count'' = None \<longrightarrow> field d ''unread_count'' = Some (JNum 0))
         \<and> (map_of payload ''priority'' = None \<longrightarrow> field d ''priority'' = Some (JNum 0)))
      \<and> (k = Notes \<longrightarrow>
           (map_of payload ''created_at'' = None \<longrightarrow>
              (\<exists>n. clock w \<le> n \<and> n < clock w' \<and> field d ''created_at'' = Some (JDate (time e n))))
         \<and> (map_of payload ''updated_at'' = None \<longrightarrow>
              (\<exists>n. clock w \<le> n \<and> n < clock w' \<and> field d ''updated_at'' = Some (JDate (time e n))))
         \<and> (map_of payload ''is_archived'' = None \<longrightarrow> field d ''is_archived'' = Some (JBool False))
         \<and> (map_of payload ''priority'' = None \<longrightarrow> field d ''priority'' = None)
         \<and> (map_of payload ''unread_count'' = None \<longrightarrow> field d ''unread_count'' = None))"
proof -
  from upsert_item_created[OF assms] obtain v where
    v: "validate e k (JObj payload) (truthy_opt (field (JObj payload) ''id'')) = Inr v"
    and nid: "\<not> truthy_opt (field v ''id'')" by blast
  from validate_object[OF v] obtain vk where
    vk: "v = JObj vk" "\<forall>f. map_of payload f = None \<longrightarrow> map_of vk f = None"
    by (elim exE conjE) (rule that; assumption)
  from assms v nid have "create_entity h e k (JObj payload) v w = (Inr (Created d), w')"
    by (auto simp: upsert_item_def upsert_attempt_def split: option.splits if_splits sum.splits prod.splits)
  then have "bind (to_create e k (JObj vk)) (\<lambda>d.
     bind (model_call h k ''create'' (model_create e k d)) (\<lambda>c.
       case c of
         None \<Rightarrow> ret (Failed (error_entry (JObj payload) (''Failed to create '' @ kind_word k)))
       | Some d' \<Rightarrow> ret (Created d'))) w = (Inr (Created d), w')"
    by (simp add: create_entity_def vk(1))
  then obtain d0 w0 where t: "to_create e k (JObj vk) w = (Inr d0, w0)"
    and r1: "bind (model_call h k ''create'' (model_create e k d0)) (\<lambda>c.
       case c of
         None \<Rightarrow> ret (Failed (error_entry (JObj payload) (''Failed to create '' @ kind_word k)))
       | Some d' \<Rightarrow> ret (Created d')) w0 = (Inr (Created d), w')"
    by (rule bind_InrE)
  from r1 obtain c w2 where mc: "model_call h k ''create'' (model_create e k d0) w0 = (Inr c, w2)"
    and r2: "(case c of
         None \<Rightarrow> ret (Failed (error_entry (JObj payload) (''Failed to create '' @ kind_word k)))
       | Some d' \<Rightarrow> ret (Created d')) w2 = (Inr (Created d), w')"
    by (rule bind_InrE)
  from r2 have c: "c = Some d" "w2 = w'" by (auto simp: ret_def split: option.splits)
  from mc c have m: "model_create e k d0 w0 = (Inr (Some d), w')"
    by (auto dest: model_call_Inr)
  show ?thesis
  proof (cases "k = Notes")
    case False
    from to_create_plain[OF t False] obtain k0 where
      k0: "d0 = JObj k0"
          "map_of vk ''unread_count'' = None \<longrightarrow> map_of k0 ''unread_count'' = Some (JNum 0)"
          "map_of vk ''priority'' = None \<longrightarrow> map_of k0 ''priority'' = Some (JNum 0)"
      by (elim exE conjE) (rule that; assumption)
    from model_create_fields[OF m[unfolded k0(1)]] obtain k1 where
      k1: "Some d = Some (JObj k1)" "JObj k1 \<in> set (docs w' k)"
          "map_of k1 ''priority'' = map_of k0 ''priority''"
          "map_of k1 ''unread_count'' = map_of k0 ''unread_count''"
      by (elim exE conjE) (rule that; assumption)
    from k1(1) have "d = JObj k1" by simp
    with False vk(2) k0 k1 show ?thesis by simp
  next
    case True
    from to_create_note[OF t[unfolded True]] obtain k0 where
      k0: "d0 = JObj k0"
       "map_of vk ''created_at'' = None \<longrightarrow>
          (\<exists>n. clock w \<le> n \<and> n < clock w0 \<and> map_of k0 ''created_at'' = Some (JDate (time e n)))"
       "map_of vk ''updated_at'' = None \<longrightarrow>
          (\<exists>n. clock w \<le> n \<and> n < clock w0 \<and> map_of k0 ''updated_at'' = Some (JDate (time e n)))"
       "map_of vk ''is_archived'' = None \<longrightarrow> map_of k0 ''is_archived'' = Some (JBool False)"
       "truthy_opt (map_of k0 ''created_at'')" "truthy_opt (map_of k0 ''updated_at'')"
       "map_of k0 ''priority'' = map_of vk ''priority''"
       "map_of k0 ''unread_count'' = map_of vk ''unread_count''"
      by (elim exE conjE) (rule that; assumption)
    from model_create_fields[OF m[unfolded k0(1)]] True obtain k1 where
      k1: "Some d = Some (JObj k1)" "JObj k1 \<in> set (docs w' k)" "clock w0 \<le> clock w'"
          "map_of k1 ''priority'' = map_of k0 ''priority''"
          "map_of k1 ''unread_count'' = map_of k0 ''unread_count''"
          "truthy_opt (map_of k0 ''created_at'') \<longrightarrow> map_of k1 ''created_at'' = map_of k0 ''created_at''"
          "truthy_opt (map_of k0 ''updated_at'') \<longrightarrow> map_of k1 ''updated_at'' = map_of k0 ''updated_at''"
          "map_of k0 ''is_archived'' = Some (JBool False) \<longrightarrow> map_of k1 ''is_archived'' = Some (JBool False)"
      by (elim exE conjE) (erule (1) impE, elim conjE, rule that; assumption)
    from k1(1) have dk: "d = JObj k1" by simp
    have ca: "map_of payload ''created_at'' = None \<longrightarrow>
              (\<exists>n. clock w \<le> n \<and> n < clock w' \<and> map_of k1 ''created_at'' = Some (JDate (time e n)))"
    proof
      assume "map_of payload ''created_at'' = None"
      with vk(2) k0(2) obtain n where "clock w \<le> n" "n < clock w0"
        "map_of k0 ''created_at'' = Some (JDate (time e n))" by auto
      with k1(3,6) k0(5) have "clock w \<le> n \<and> n < clock w' \<and> map_of k1 ''created_at'' = Some (JDate (time e n))"
        by simp
      then show "\<exists>n. clock w \<le> n \<and> n < clock w' \<and> map_of k1 ''created_at'' = Some (JDate (time e n))" ..
    qed
    have ua: "map_of payload ''updated_at'' = None \<longrightarrow>
              (\<exists>n. clock w \<le> n \<and> n < clock w' \<and> map_of k1 ''updated_at'' = Some (JDate (time e n)))"
    proof
      assume "map_of payload ''updated_at'' = None"
      with vk(2) k0(3) obtain n where "clock w \<le> n" "n < clock w0"
        "map_of k0 ''updated_at'' = Some (JDate (time e n))" by auto
      with k1(3,7) k0(6) have "clock w \<le> n \<and> n < clock w' \<and> map_of k1 ''updated_at'' = Some (JDate (time e n))"
        by simp
      then show "\<exists>n. clock w \<le> n \<and> n < clock w' \<and> map_of k1 ''updated_at'' = Some (JDate (time e n))" ..
    qed
    from True dk vk(2) k0(4,7,8) k1(2,4,5,8) ca ua show ?thesis by simp
  qed
qed

text \<open>
  C2, as amended. An entity created by \<open>createOrUpdateEntities\<close> from an object payload is
  stored in its kind's collection with the defaults of its kind. For a topic, a category or
  an event, \<open>unread_count\<close> and \<open>priority\<close> are 0 when the payload has no such field. For a
  note, \<open>created_at\<close> and \<open>updated_at\<close> are each a reading of the clock taken while the item
  is processed when the payload has no such field, and \<open>is_archived\<close> is false when the
  payload has none; a note gets no default \<open>priority\<close> or \<open>unread_count\<close>: created without
  the field, it is stored without it. Every document listed under \<open>created\<close> is such an
  entity, created from one of the items of its kind.
\<close>

theorem created_entity_defaults:
  "(upsert_item h e k (JObj payload) w = (Created d, w') \<longrightarrow>
      d \<in> set (docs w' k)
      \<and> (k \<noteq> Notes \<longrightarrow>
           (map_of payload ''unread_count'' = None \<longrightarrow> field d ''unread_count'' = Some (JNum 0))
         \<and> (map_of payload ''priority'' = None \<longrightarrow> field d ''priority'' = Some (JNum 0)))
      \<and> (k = Notes \<longrightarrow>
           (map_of payload ''created_at'' = None \<longrightarrow>
              (\<exists>n. clock w \<le> n \<and> n < clock w' \<and> field d ''created_at'' = Some (JDate (time e n))))
         \<and> (map_of payload ''updated_at'' = None \<longrightarrow>
              (\<exists>n. clock w \<le> n \<and> n < clock w' \<and> field d ''updated_at'' = Some (JDate (time e n))))
         \<and> (map_of payload ''is_archived'' = None \<longrightarrow> field d ''is_archived'' = Some (JBool False))
         \<and> (map_of payload ''priority'' = None \<longrightarrow> field d ''priority'' = None)
         \<and> (map_of payload ''unread_count'' = None \<longrightarrow> field d ''unread_count'' = None)))
   \<and> (createOrUpdateEntities h e body w0 = (Respond st r, w1)
        \<and> field body (kind_key k) = Some (JArr items) \<and> c \<in> set (entries (created r) k)
      \<longrightarrow> (\<exists>i<length items. outcome_of_item h e k (items ! i) (Created c)))"
  (is "?A \<and> ?B")
proof -
  have A: ?A using upsert_item_created_fields[of h e k payload w d w'] by (rule impI)
  have B: ?B
  proof (rule impI)
    assume a: "createOrUpdateEntities h e body w0 = (Respond st r, w1)
        \<and> field body (kind_key k) = Some (JArr items) \<and> c \<in> set (entries (created r) k)"
    from a have run: "createOrUpdateEntities h e body w0 = (Respond st r, w1)"
      and f: "field body (kind_key k) = Some (JArr items)" by simp_all
    from upsert_entries[OF run f] obtain outs where
      o: "length outs = length items"
         "\<forall>i<length items. outcome_of_item h e k (items ! i) (outs ! i)"
         "entries (created r) k = created_of outs"
      by (elim exE conjE) (rule that; assumption)
    from a o(3) have "c \<in> set (created_of outs)" by simp
    from created_of_nth[OF this] obtain i where "i < length outs" "outs ! i = Created c" by blast
    with o(1,2) have "i < length items \<and> outcome_of_item h e k (items ! i) (Created c)"
      by (metis)
    then show "\<exists>i<length items. outcome_of_item h e k (items ! i) (Created c)" by blast
  qed
  from A B show ?thesis by (rule conjI)
qed

lemma run_note:
  "createOrUpdateEntities all_models sample_env (JObj [(''notes'', JArr [note_hi])]) empty_world
   = (Respond 200
        \<lparr>success = True, errors = [], created = [(''notes'', [stored_note_hi])], updated = []\<rparr>,
      \<lparr>docs = (\<lambda>k. [])(Notes := [stored_note_hi]), ops = 1, clock = 3, uuids = 1, oids = 1\<rparr>)"
  by (simp add: note_hi_def stored_note_hi_def upsert_defs validator_defs model_defs io_defs
      sample_defs)

text \<open>
  C2 as stated fails for notes: the note \<open>{ content: 'hi', reference_type: 'topic',
  reference_id: 't1' }\<close>, sent without \<open>id\<close> and without \<open>priority\<close>, is created and stored
  with no \<open>priority\<close> field at all.
\<close>

theorem note_priority_counterexample:
  "field note_hi ''id'' = None \<and> field note_hi ''priority'' = None
   \<and> (\<exists>r w' d. createOrUpdateEntities all_models sample_env (JObj [(''notes'', JArr [note_hi])])
                  empty_world = (Respond 200 r, w')
         \<and> created r = [(''notes'', [d])] \<and> docs w' Notes = [d]
         \<and> field d ''priority'' = None \<and> field d ''priority'' \<noteq> Some (JNum 0))"
proof -
  have "field stored_note_hi ''priority'' = None" by (simp add: stored_note_hi_def)
  with run_note show ?thesis by (simp add: note_hi_def)
qed

lemma item_topic_AI:
  "upsert_item all_models sample_env Topics (JObj [(''name'', JStr ''AI'')]) empty_world
   = (Created (JObj [(''name'', JStr ''AI''), (''id'', JStr ''u''), (''unread_count'', JNum 0),
                     (''priority'', JNum 0), (''_id'', JOid 0)]),
      \<lparr>docs = (\<lambda>k. [])(Topics :=
            [JObj [(''name'', JStr ''AI''), (''id'', JStr ''u''), (''unread_count'', JNum 0),
                   (''priority'', JNum 0), (''_id'', JOid 0)]]),
       ops = 1, clock = 0, uuids = 1, oids = 1\<rparr>)"
  by (simp add: upsert_defs validator_defs model_defs io_defs sample_defs)

lemma item_note_hi:
  "upsert_item all_models sample_env Notes
      (JObj [(''content'', JStr ''hi''), (''reference_type'', JStr ''topic''),
             (''reference_id'', JStr ''t1'')]) empty_world
   = (Created stored_note_hi,
      \<lparr>docs = (\<lambda>k. [])(Notes := [stored_note_hi]), ops = 1, clock = 3, uuids = 1, oids = 1\<rparr>)"
  by (simp add: stored_note_hi_def upsert_defs validator_defs model_defs io_defs sample_defs)

theorem created_entity_defaults_witness:
  "(\<exists>d w'. upsert_item all_models sample_env Topics (JObj [(''name'', JStr ''AI'')]) empty_world
              = (Created d, w')
        \<and> d \<in> set (docs w' Topics)
        \<and> field d ''unread_count'' = Some (JNum 0) \<and> field d ''priority'' = Some (JNum 0))
   \<and> (\<exists>d w'. upsert_item all_models sample_env Notes note_hi empty_world = (Created d, w')
        \<and> d \<in> set (docs w' Notes)
        \<and> (\<exists>n < clock w'. field d ''created_at'' = Some (JDate (time sample_env n)))
        \<and> (\<exists>n < clock w'. field d ''updated_at'' = Some (JDate (time sample_env n)))
        \<and> field d ''is_archived'' = Some (JBool False)
        \<and> field d ''priority'' = None \<and> field d ''unread_count'' = None)"
proof -
  let ?t = "JObj [(''name'', JStr ''AI''), (''id'', JStr ''u''), (''unread_count'', JNum 0),
                  (''priority'', JNum 0), (''_id'', JOid 0)]"
  let ?wt = "\<lparr>docs = (\<lambda>k. [])(Topics := [?t]), ops = 1, clock = 0, uuids = 1, oids = 1\<rparr>"
  let ?wn = "\<lparr>docs = (\<lambda>k. [])(Notes := [stored_note_hi]), ops = 1, clock = 3, uuids = 1, oids = 1\<rparr>"
  note t = created_entity_defaults[where h=all_models and e=sample_env and k=Topics
      and payload="[(''name'', JStr ''AI'')]" and w=empty_world and d="?t" and w'="?wt",
      THEN conjunct1, rule_format, OF item_topic_AI]
  note n = created_entity_defaults[where h=all_models and e=sample_env and k=Notes
      and payload="[(''content'', JStr ''hi''), (''reference_type'', JStr ''topic''),
             (''reference_id'', JStr ''t1'')]" and w=empty_world and d=stored_note_hi and w'="?wn",
      THEN conjunct1, rule_format, OF item_note_hi]
  have T: "?t \<in> set (docs ?wt Topics) \<and> field ?t ''unread_count'' = Some (JNum 0)
      \<and> field ?t ''priority'' = Some (JNum 0)"
    using t by simp
  have N: "stored_note_hi \<in> set (docs ?wn Notes)
        \<and> (\<exists>n < clock ?wn. field stored_note_hi ''created_at'' = Some (JDate (time sample_env n)))
        \<and> (\<exists>n < clock ?wn. field stored_note_hi ''updated_at'' = Some (JDate (time sample_env n)))
        \<and> field stored_note_hi ''is_archived'' = Some (JBool False)
        \<and> field stored_note_hi ''priority'' = None \<and> field stored_note_hi ''unread_count'' = None"
    using n by auto
  have first: "\<exists>d w'. upsert_item all_models sample_env Topics (JObj [(''name'', JStr ''AI'')]) empty_world
              = (Created d, w')
        \<and> d \<in> set (docs w' Topics)
        \<and> field d ''unread_count'' = Some (JNum 0) \<and> field d ''priority'' = Some (JNum 0)"
    by (rule exI[of _ ?t], rule exI[of _ ?wt], rule conjI[OF item_topic_AI T])
  have second: "\<exists>d w'. upsert_item all_models sample_env Notes note_hi empty_world = (Created d, w')
        \<and> d \<in> set (docs w' Notes)
        \<and> (\<exists>n < clock w'. field d ''created_at'' = Some (JDate (time sample_env n)))
        \<and> (\<exists>n < clock w'. field d ''updated_at'' = Some (JDate (time sample_env n)))
        \<and> field d ''is_archived'' = Some (JBool False)
        \<and> field d ''priority'' = None \<and> field d ''unread_count'' = None"
    unfolding note_hi_def
    by (rule exI[of _ stored_note_hi], rule exI[of _ ?wn], rule conjI[OF item_note_hi N])
  from first second show ?thesis by (rule conjI)
qed

lemma validate_schema: "validate e k item u = schema_validate e (schema_of k u) item"
  by (cases k) (simp_all add: validateTopic_def validateCategory_def validateEvent_def
      validateNote_def)

lemma schema_keys: "set (map fst (schema_of k u)) = declared_keys k"
  by (cases k) (simp_all add: declared_keys_def topic_schema_def category_schema_def
      event_schema_def note_schema_def)

lemma map_of_known:
  "key \<in> K \<Longrightarrow> map_of (filter (\<lambda>(key', x). key' \<in> K) kvs) key = map_of kvs key"
  by (induction kvs) auto

lemma key_errors_known:
  "fst ` set sch \<subseteq> K \<Longrightarrow>
   key_errors e sch (filter (\<lambda>(key', x). key' \<in> K) kvs) = key_errors e sch kvs"
  by (induction sch) (auto simp: map_of_known)

lemma strip_and_convert_known:
  "fst ` set sch = K \<Longrightarrow>
   strip_and_convert e sch (filter (\<lambda>(key', x). key' \<in> K) kvs) = strip_and_convert e sch kvs"
proof (induction kvs)
  case Nil
  then show ?case by simp
next
  case (Cons a kvs)
  obtain key x where a: "a = (key, x)" by (cases a)
  show ?case
  proof (cases "key \<in> K")
    case True
    with Cons a show ?thesis by (simp split: option.splits)
  next
    case False
    with Cons.prems have "map_of sch key = None" by (simp add: map_of_eq_None_iff)
    with Cons a False show ?thesis by simp
  qed
qed

lemma strip_and_convert_keys:
  "map_of sch f = None \<Longrightarrow> map_of (strip_and_convert e sch kvs) f = None"
  by (induction kvs) (auto split: option.splits)

lemma validate_known:
  "validate e k (JObj (known_fields k kvs)) u = validate e k (JObj kvs) u"
proof -
  have s: "fst ` set (schema_of k u) = declared_keys k" using schema_keys[of k u] by simp
  then have "key_errors e (schema_of k u) (known_fields k kvs) = key_errors e (schema_of k u) kvs"
    unfolding known_fields_def by (intro key_errors_known) simp
  moreover have "strip_and_convert e (schema_of k u) (known_fields k kvs)
      = strip_and_convert e (schema_of k u) kvs"
    unfolding known_fields_def using s by (rule strip_and_convert_known)
  ultimately show ?thesis
    by (simp add: validate_schema schema_validate_def as_object_def split: list.splits)
qed

lemma validate_strips:
  assumes "validate e k (JObj kvs) u = Inr v" "f \<notin> declared_keys k"
  shows "field v f = None"
proof -
  from assms(2) have "map_of (schema_of k u) f = None"
    using schema_keys[of k u] by (simp add: map_of_eq_None_iff)
  then have "map_of (strip_and_convert e (schema_of k u) kvs) f = None"
    by (rule strip_and_convert_keys)
  moreover from assms(1) have "v = JObj (strip_and_convert e (schema_of k u) kvs)"
    by (auto simp: validate_schema schema_validate_def as_object_def split: list.splits)
  ultimately show ?thesis by simp
qed

lemma id_declared: "''id'' \<in> declared_keys k"
  by (cases k) (simp_all add: declared_keys_def topic_schema_def category_schema_def
      event_schema_def note_schema_def)

lemma known_id: "field (JObj (known_fields k kvs)) ''id'' = field (JObj kvs) ''id''"
  unfolding known_fields_def by (simp add: map_of_known id_declared)

lemma create_entity_same:
  "same_but_data i1 i2
     (case create_entity h e k i1 v w of
        (Inl m, w') \<Rightarrow> (Failed (error_entry i1 m), w') | (Inr out, w') \<Rightarrow> (out, w'))
     (case create_entity h e k i2 v w of
        (Inl m, w') \<Rightarrow> (Failed (error_entry i2 m), w') | (Inr out, w') \<Rightarrow> (out, w'))"
  unfolding create_entity_def same_but_data_def
  by (auto simp: bind_def ret_def split: prod.splits sum.splits option.splits outcome.splits)

lemma update_entity_same:
  "same_but_data i1 i2
     (case update_entity h e k i1 v vid w of
        (Inl m, w') \<Rightarrow> (Failed (error_entry i1 m), w') | (Inr out, w') \<Rightarrow> (out, w'))
     (case update_entity h e k i2 v vid w of
        (Inl m, w') \<Rightarrow> (Failed (error_entry i2 m), w') | (Inr out, w') \<Rightarrow> (out, w'))"
  unfolding update_entity_def same_but_data_def
  by (auto simp: bind_def ret_def split: prod.splits sum.splits option.splits outcome.splits)

lemma upsert_item_same:
  assumes "validate e k i1 (truthy_opt (field i1 ''id'')) = validate e k i2 (truthy_opt (field i2 ''id''))"
    and "i1 \<noteq> JNull" "i2 \<noteq> JNull"
  shows "same_but_data i1 i2 (upsert_item h e k i1 w) (upsert_item h e k i2 w)"
proof (cases "validate e k i2 (truthy_opt (field i2 ''id''))")
  case (Inl m)
  with assms show ?thesis
    by (auto simp: upsert_item_def upsert_attempt_def ret_def same_but_data_def)
next
  case (Inr v)
  show ?thesis
  proof (cases "field v ''id''")
    case None
    with Inr assms create_entity_same[of i1 i2 h e k v w] show ?thesis
      by (simp add: upsert_item_def upsert_attempt_def)
  next
    case (Some vid)
    with Inr assms create_entity_same[of i1 i2 h e k v w]
      update_entity_same[of i1 i2 h e k v vid w] show ?thesis
      by (simp add: upsert_item_def upsert_attempt_def)
  qed
qed

lemma unknown_key:
  assumes "f \<notin> declared_keys k"
  shows "f \<noteq> ''id''" "f \<noteq> ''priority''"
    "k \<noteq> Notes \<Longrightarrow> f \<noteq> ''unread_count''"
    "k = Notes \<Longrightarrow> f \<noteq> ''created_at'' \<and> f \<noteq> ''updated_at'' \<and> f \<noteq> ''is_archived''
        \<and> f \<noteq> ''tags'' \<and> f \<noteq> ''metadata''"
    "k = Categories \<Longrightarrow> f \<noteq> ''subcategories''"
    "k = Events \<Longrightarrow> f \<noteq> ''timeline''"
  using assms
  by (cases k; force simp: declared_keys_def topic_schema_def category_schema_def
        event_schema_def note_schema_def)+

lemma to_create_untouched:
  assumes "to_create e k (JObj kvs) w = (Inr d, w1)"
  shows "\<exists>kvs'. d = JObj kvs'
     \<and> (\<forall>g. g \<noteq> ''id'' \<and> (k \<noteq> Notes \<longrightarrow> g \<noteq> ''unread_count'' \<and> g \<noteq> ''priority'')
            \<and> (k = Notes \<longrightarrow> g \<noteq> ''created_at'' \<and> g \<noteq> ''updated_at'' \<and> g \<noteq> ''is_archived'')
          \<longrightarrow> map_of kvs' g = map_of kvs g)"
  using assms
  by (cases k)
     (auto simp: to_create_def default_from_def bind_def ret_def new_uuid_def new_Date_def
        map_of_put Let_def split: if_splits)

lemma model_create_untouched:
  assumes "model_create e k (JObj kvs) w = (Inr (Some d), w')"
  shows "\<exists>kvs'. d = JObj kvs'
     \<and> (\<forall>g. g \<noteq> ''id'' \<and> g \<noteq> ''_id''
            \<and> (k = Categories \<longrightarrow> g \<noteq> ''subcategories'') \<and> (k = Events \<longrightarrow> g \<noteq> ''timeline'')
            \<and> (k = Notes \<longrightarrow> g \<noteq> ''created_at'' \<and> g \<noteq> ''updated_at'' \<and> g \<noteq> ''is_archived''
                  \<and> g \<noteq> ''tags'' \<and> g \<noteq> ''metadata'')
          \<longrightarrow> map_of kvs' g = map_of kvs g)"
  using assms
  by (cases k)
     (auto simp: Topic_create_def Category_create_def Event_create_def Note_create_def
        generate_id_def insert_and_return_def insertOne_def store_call_def bind_def ret_def
        new_ObjectId_def new_Date_def map_of_put Let_def
        split: if_splits option.splits)

text \<open>
  C9. For a payload that is an object, of any kind: the validated value has no field that
  the kind's schema does not declare; validation gives the same result, error or value, as
  for the payload without its undeclared fields, so an undeclared field alone never makes
  an item invalid; processing the item leaves the store exactly as processing the payload
  without its undeclared fields does, with the same created or updated document (an error
  entry differs only in the \<open>data\<close> it echoes); and a created document has no undeclared
  field but the \<open>_id\<close> the database adds.
\<close>

theorem unknown_fields_stripped:
  "(validate e k (JObj payload) u = Inr v \<and> f \<notin> declared_keys k \<longrightarrow> field v f = None)
   \<and> validate e k (JObj payload) u = validate e k (JObj (known_fields k payload)) u
   \<and> same_but_data (JObj payload) (JObj (known_fields k payload))
        (upsert_item h e k (JObj payload) w)
        (upsert_item h e k (JObj (known_fields k payload)) w)
   \<and> (upsert_item h e k (JObj payload) w = (Created d, w') \<and> f \<notin> declared_keys k \<and> f \<noteq> ''_id''
        \<longrightarrow> field d f = None)"
  (is "?A \<and> ?B \<and> ?C \<and> ?D")
proof -
  have A: ?A using validate_strips[of e k payload u v f] by blast
  have B: ?B by (simp add: validate_known)
  have C: ?C
    using known_id[of k payload] by (intro upsert_item_same) (simp_all add: validate_known)
  have D: ?D
  proof (rule impI)
    assume a: "upsert_item h e k (JObj payload) w = (Created d, w') \<and> f \<notin> declared_keys k \<and> f \<noteq> ''_id''"
    then have u: "upsert_item h e k (JObj payload) w = (Created d, w')"
      and f: "f \<notin> declared_keys k" "f \<noteq> ''_id''" by simp_all
    from upsert_item_created[OF u] obtain v where
      v: "validate e k (JObj payload) (truthy_opt (field (JObj payload) ''id'')) = Inr v"
      and nid: "\<not> truthy_opt (field v ''id'')" by blast
    from validate_object[OF v] obtain vk where vk: "v = JObj vk"
      by (elim exE conjE) (rule that; assumption)
    from validate_strips[OF v f(1)] vk have vf: "map_of vk f = None" by simp
    from u v nid have "create_entity h e k (JObj payload) v w = (Inr (Created d), w')"
      by (auto simp: upsert_item_def upsert_attempt_def
          split: option.splits if_splits sum.splits prod.splits)
    then have "bind (to_create e k (JObj vk)) (\<lambda>d.
       bind (model_call h k ''create'' (model_create e k d)) (\<lambda>c.
         case c of
           None \<Rightarrow> ret (Failed (error_entry (JObj payload) (''Failed to create '' @ kind_word k)))
         | Some d' \<Rightarrow> ret (Created d'))) w = (Inr (Created d), w')"
      by (simp add: create_entity_def vk)
    then obtain d0 w0 where t: "to_create e k (JObj vk) w = (Inr d0, w0)"
      and r1: "bind (model_call h k ''create'' (model_create e k d0)) (\<lambda>c.
         case c of
           None \<Rightarrow> ret (Failed (error_entry (JObj payload) (''Failed to create '' @ kind_word k)))
         | Some d' \<Rightarrow> ret (Created d')) w0 = (Inr (Created d), w')"
      by (rule bind_InrE)
    from r1 obtain c w2 where mc: "model_call h k ''create'' (model_create e k d0) w0 = (Inr c, w2)"
      and r2: "(case c of
           None \<Rightarrow> ret (Failed (error_entry (JObj payload) (''Failed to create '' @ kind_word k)))
         | Some d' \<Rightarrow> ret (Created d')) w2 = (Inr (Created d), w')"
      by (rule bind_InrE)
    from r2 have c: "c = Some d" "w2 = w'" by (auto simp: ret_def split: option.splits)
    from mc c have m: "model_create e k d0 w0 = (Inr (Some d), w')"
      by (auto dest: model_call_Inr)
    from to_create_untouched[OF t] obtain k0 where k0: "d0 = JObj k0"
      and p0: "\<forall>g. g \<noteq> ''id'' \<and> (k \<noteq> Notes \<longrightarrow> g \<noteq> ''unread_count'' \<and> g \<noteq> ''priority'')
            \<and> (k = Notes \<longrightarrow> g \<noteq> ''created_at'' \<and> g \<noteq> ''updated_at'' \<and> g \<noteq> ''is_archived'')
          \<longrightarrow> map_of k0 g = map_of vk g"
      by (elim exE conjE) (rule that; assumption)
    from model_create_untouched[OF m[unfolded k0]] obtain k1 where k1: "d = JObj k1"
      and p1: "\<forall>g. g \<noteq> ''id'' \<and> g \<noteq> ''_id''
            \<and> (k = Categories \<longrightarrow> g \<noteq> ''subcategories'') \<and> (k = Events \<longrightarrow> g \<noteq> ''timeline'')
            \<and> (k = Notes \<longrightarrow> g \<noteq> ''created_at'' \<and> g \<noteq> ''updated_at'' \<and> g \<noteq> ''is_archived''
                  \<and> g \<noteq> ''tags'' \<and> g \<noteq> ''metadata'')
          \<longrightarrow> map_of k1 g = map_of k0 g"
      by (elim exE conjE) (rule that; assumption)
    note uk = unknown_key[OF f(1)]
    from p0[rule_format, of f] uk have "map_of k0 f = map_of vk f" by auto
    moreover from p1[rule_format, of f] uk f(2) have "map_of k1 f = map_of k0 f" by auto
    ultimately show "field d f = None" using vf k1 by simp
  qed
  from A B C D show ?thesis by (intro conjI)
qed

lemma item_topic_extra:
  "upsert_item all_models sample_env Topics
      (JObj [(''name'', JStr ''AI''), (''color'', JStr ''red'')]) empty_world
   = (Created (JObj [(''name'', JStr ''AI''), (''id'', JStr ''u''), (''unread_count'', JNum 0),
                     (''priority'', JNum 0), (''_id'', JOid 0)]),
      \<lparr>docs = (\<lambda>k. [])(Topics :=
            [JObj [(''name'', JStr ''AI''), (''id'', JStr ''u''), (''unread_count'', JNum 0),
                   (''priority'', JNum 0), (''_id'', JOid 0)]]),
       ops = 1, clock = 0, uuids = 1, oids = 1\<rparr>)"
  by (simp add: upsert_defs validator_defs model_defs io_defs sample_defs)

theorem unknown_fields_stripped_witness:
  "''color'' \<notin> declared_keys Topics
   \<and> known_fields Topics [(''name'', JStr ''AI''), (''color'', JStr ''red'')] = [(''name'', JStr ''AI'')]
   \<and> validate sample_env Topics (JObj [(''name'', JStr ''AI''), (''color'', JStr ''red'')]) False
       = Inr (JObj [(''name'', JStr ''AI'')])
   \<and> (\<exists>d w'. upsert_item all_models sample_env Topics
                 (JObj [(''name'', JStr ''AI''), (''color'', JStr ''red'')]) empty_world
               = (Created d, w')
         \<and> field d ''color'' = None
         \<and> upsert_item all_models sample_env Topics (JObj [(''name'', JStr ''AI'')]) empty_world
               = (Created d, w'))"
proof -
  let ?p = "[(''name'', JStr ''AI''), (''color'', JStr ''red'')]"
  let ?t = "JObj [(''name'', JStr ''AI''), (''id'', JStr ''u''), (''unread_count'', JNum 0),
                  (''priority'', JNum 0), (''_id'', JOid 0)]"
  let ?wt = "\<lparr>docs = (\<lambda>k. [])(Topics := [?t]), ops = 1, clock = 0, uuids = 1, oids = 1\<rparr>"
  have c: "''color'' \<notin> declared_keys Topics"
    by (simp add: declared_keys_def topic_schema_def)
  have k: "known_fields Topics ?p = [(''name'', JStr ''AI'')]"
    by (simp add: known_fields_def declared_keys_def topic_schema_def)
  have v: "validate sample_env Topics (JObj ?p) False = Inr (JObj [(''name'', JStr ''AI'')])"
    by (simp add: validator_defs sample_defs)
  note inst = unknown_fields_stripped[where e=sample_env and k=Topics and payload="?p"
      and u=False and v="JObj [(''name'', JStr ''AI'')]" and f="''color''" and h=all_models
      and w=empty_world and d="?t" and w'="?wt"]
  from inst[THEN conjunct2, THEN conjunct2, THEN conjunct2, rule_format] item_topic_extra c
  have f: "field ?t ''color'' = None" by simp
  have "\<exists>d w'. upsert_item all_models sample_env Topics (JObj ?p) empty_world = (Created d, w')
         \<and> field d ''color'' = None
         \<and> upsert_item all_models sample_env Topics (JObj [(''name'', JStr ''AI'')]) empty_world
               = (Created d, w')"
    by (rule exI[of _ ?t], rule exI[of _ ?wt],
        rule conjI[OF item_topic_extra conjI[OF f item_topic_AI]])
  with c k v show ?thesis by (intro conjI)
qed

section \<open>Searching\<close>




lemma matching_ops [simp]: "matching e k q (w\<lparr>ops := n\<rparr>) = matching e k q w"
  by (simp add: matching_def)









lemmas seeded_defs = seeded_world_def topic_ai_def topic_brain_def topic_go_def
  category_tech_def note_ai_def note_old_def













lemma find_split:
  "find P xs = Some d \<Longrightarrow> \<exists>pre post. xs = pre @ d # post \<and> (\<forall>x\<in>set pre. \<not> P x) \<and> P d"
proof (induction xs)
  case Nil
  then show ?case by simp
next
  case (Cons a xs)
  show ?case
  proof (cases "P a")
    case True
    with Cons.prems have "a # xs = [] @ d # xs \<and> (\<forall>x\<in>set []. \<not> P x) \<and> P d" by simp
    then show ?thesis by blast
  next
    case False
    with Cons obtain pre post where "xs = pre @ d # post" "\<forall>x\<in>set pre. \<not> P x" "P d" by auto
    with False have "a # xs = (a # pre) @ d # post \<and> (\<forall>x\<in>set (a # pre). \<not> P x) \<and> P d" by simp
    then show ?thesis by blast
  qed
qed

lemma replace_first_split:
  "(\<forall>x\<in>set pre. \<not> P x) \<Longrightarrow> P d \<Longrightarrow> replace_first P y (pre @ d # post) = pre @ y # post"
  by (induction pre) auto

lemma remove_first_split:
  "(\<forall>x\<in>set pre. \<not> P x) \<Longrightarrow> P d \<Longrightarrow> remove_first P (pre @ d # post) = pre @ post"
  by (induction pre) auto

lemma find_after:
  "(\<forall>x\<in>set pre. \<not> P x) \<Longrightarrow> P y \<Longrightarrow> find P (pre @ y # post) = Some y"
  by (induction pre) auto

lemma put_keys: "fst ` set (put k v kvs) = insert k (fst ` set kvs)"
  by (induction kvs) (force+)

lemma distinct_put: "distinct (map fst kvs) \<Longrightarrow> distinct (map fst (put k v kvs))"
  by (induction kvs) (auto simp: put_keys)

lemma fold_put:
  "distinct (map fst kvs) \<Longrightarrow>
   map_of (fold (\<lambda>(k, v). put k v) kvs dk) g
     = (case map_of kvs g of Some v \<Rightarrow> Some v | None \<Rightarrow> map_of dk g)"
proof (induction kvs arbitrary: dk)
  case Nil
  then show ?case by simp
next
  case (Cons a kvs)
  obtain k v where a: "a = (k, v)" by (cases a)
  from Cons.prems a have d: "distinct (map fst kvs)" and nk: "map_of kvs k = None"
    by (auto simp: map_of_eq_None_iff)
  from Cons.IH[OF d, of "put k v dk"] a nk show ?case
    by (auto simp: map_of_put split: option.splits)
qed

lemma fold_assign:
  "fold (\<lambda>(k, v). assign k v) kvs (JObj dk) = JObj (fold (\<lambda>(k, v). put k v) kvs dk)"
  by (induction kvs arbitrary: dk) auto

lemma fold_assign_other:
  "(\<forall>dk. d \<noteq> JObj dk) \<Longrightarrow> fold (\<lambda>(k, v). assign k v) kvs d = d"
  by (induction kvs) (auto, cases d, auto)

lemma set_fields_changed:
  assumes "set_fields upd d \<noteq> d"
  shows "\<exists>dk. d = JObj dk"
proof (rule ccontr)
  assume "\<not> (\<exists>dk. d = JObj dk)"
  then have "\<And>kvs. fold (\<lambda>(k, v). assign k v) kvs d = d" by (simp add: fold_assign_other)
  then have "set_fields upd d = d" by (cases upd) (simp_all add: set_fields_def)
  with assms show False by simp
qed

lemma set_fields_field:
  "distinct (map fst kvs) \<Longrightarrow>
   field (set_fields (JObj kvs) (JObj dk)) g
     = (case map_of kvs g of Some v \<Rightarrow> Some v | None \<Rightarrow> map_of dk g)"
  by (simp add: set_fields_def fold_assign fold_put)

lemma updateOne_modified:
  assumes "updateOne e k x upd w = (Inr n, w')" "n > 0"
  shows "\<exists>pre d post. docs w k = pre @ d # post \<and> (\<forall>y\<in>set pre. \<not> id_matches e x y)
           \<and> id_matches e x d \<and> set_fields upd d \<noteq> d
           \<and> w' = w\<lparr>ops := Suc (ops w), docs := (docs w)(k := pre @ set_fields upd d # post)\<rparr>"
proof -
  from assms obtain d where f: "find (id_matches e x) (docs w k) = Some d"
    and c: "set_fields upd d \<noteq> d"
    and w': "w' = w\<lparr>ops := Suc (ops w),
              docs := (docs w)(k := replace_first (id_matches e x) (set_fields upd d) (docs w k))\<rparr>"
    by (auto simp: updateOne_def store_call_def Let_def split: option.splits if_splits)
  from find_split[OF f] obtain pre post where
    s: "docs w k = pre @ d # post" "\<forall>y\<in>set pre. \<not> id_matches e x y" "id_matches e x d" by blast
  from replace_first_split[OF s(2,3)] s(1) w'
  have "w' = w\<lparr>ops := Suc (ops w), docs := (docs w)(k := pre @ set_fields upd d # post)\<rparr>"
    by simp
  with s c show ?thesis by blast
qed

section \<open>Updating one item\<close>


lemma update_data_ops [simp]: "update_data e k v (w\<lparr>ops := n\<rparr>) = update_data e k v w"
  by (cases k) (simp_all add: update_data_def)







section \<open>The items of a batch, each on the store the one before it left\<close>




text \<open>
  C1, as amended. Every item of a kind's list is processed in turn, each on the store the
  item before it left, and yields exactly one entry, in that kind's \<open>created\<close>, \<open>updated\<close>
  or \<open>errors\<close> list of the response, in the order of the items; \<open>success\<close> is false exactly
  when the pruned \<open>errors\<close> object has a key, and the status is 200 when \<open>success\<close> is true
  and 207 otherwise. For one item on the store it meets: when the validator rejects it,
  its entry is \<open>{ data: item, error: 'Validation error: ...' }\<close> in \<open>errors\<close>; every entry in
  \<open>errors\<close> has the form \<open>{ data: item, error }\<close>; an entry in \<open>created\<close> comes from a valid
  item without \<open>id\<close>, and on a store that neither fails nor rejects documents a valid item
  without \<open>id\<close> is in \<open>created\<close>. A valid item with an \<open>id\<close> is never in \<open>created\<close>; it is in
  \<open>updated\<close> only when a stored document of the kind has that \<open>id\<close> and the update changes
  the first such document, and then that document is replaced by the changed one and the
  entry is the document found under the \<open>id\<close> afterwards; and on a store that neither fails
  nor rejects documents its outcome is decided by the stored documents alone: the error
  \<open>... with ID ... not found\<close> when no document has the \<open>id\<close>, the error
  \<open>Failed to update ...\<close> when the update leaves the document as it was, both with the
  collection unchanged, and an entry in \<open>updated\<close> otherwise.
\<close>









end
